theory Spec2Isabelle
  imports Complex_Main "HOL-Library.Char_ord" "HOL-Library.List_Lexorder"
    "HOL-Library.Product_Lexorder"
begin

section \<open>Text helpers\<close>

text \<open>
  Python strings are sequences of code points. The model uses \<^typ>\<open>string\<close> with one
  \<^typ>\<open>char\<close> per code point, which covers the code points 0 to 255 (Latin-1). The
  character classes below are the ones Python's \<^verbatim>\<open>re\<close> module and \<^verbatim>\<open>str\<close> methods
  use on that range: \<^verbatim>\<open>\s\<close> and \<^verbatim>\<open>str.strip()\<close> (\<open>is_space\<close>), \<^verbatim>\<open>\w\<close> (\<open>is_word\<close>),
  \<^verbatim>\<open>\d\<close> (\<open>is_digit\<close>) and \<^verbatim>\<open>str.lower()\<close> (\<open>lower\<close>).
\<close>

definition code :: "char \<Rightarrow> nat" where
  "code c = of_char c"

definition is_space :: "char \<Rightarrow> bool" where
  "is_space c = (let n = code c in (9 \<le> n \<and> n \<le> 13) \<or> (28 \<le> n \<and> n \<le> 32) \<or> n = 133 \<or> n = 160)"

definition is_digit :: "char \<Rightarrow> bool" where
  "is_digit c = (let n = code c in 48 \<le> n \<and> n \<le> 57)"

definition is_word :: "char \<Rightarrow> bool" where
  "is_word c = (let n = code c in
     (48 \<le> n \<and> n \<le> 57) \<or> (65 \<le> n \<and> n \<le> 90) \<or> n = 95 \<or> (97 \<le> n \<and> n \<le> 122) \<or>
     n = 170 \<or> n = 178 \<or> n = 179 \<or> n = 181 \<or> n = 185 \<or> n = 186 \<or>
     (188 \<le> n \<and> n \<le> 190) \<or> (192 \<le> n \<and> n \<le> 214) \<or> (216 \<le> n \<and> n \<le> 246) \<or>
     (248 \<le> n \<and> n \<le> 255))"

definition lower_char :: "char \<Rightarrow> char" where
  "lower_char c = (let n = code c in
     if (65 \<le> n \<and> n \<le> 90) \<or> (192 \<le> n \<and> n \<le> 222 \<and> n \<noteq> 215) then char_of (n + 32) else c)"

definition lower :: "string \<Rightarrow> string" where
  "lower s = map lower_char s"

text \<open>\<^verbatim>\<open>s.strip()\<close>: leading and trailing whitespace removed.\<close>

definition strip :: "string \<Rightarrow> string" where
  "strip s = rev (dropWhile is_space (rev (dropWhile is_space s)))"

text \<open>
  \<^verbatim>\<open>re.sub(r"\s+", " ", s)\<close>: every maximal run of whitespace becomes one space. The flag
  says whether the previous character belonged to a run already replaced.
\<close>

fun sub_ws :: "bool \<Rightarrow> string \<Rightarrow> string" where
  "sub_ws in_run [] = []"
| "sub_ws in_run (c # cs) =
     (if is_space c then (if in_run then sub_ws True cs else CHR '' '' # sub_ws True cs)
      else c # sub_ws False cs)"

text \<open>\<^verbatim>\<open>s.replace("\xa0", " ")\<close>.\<close>

definition replace_nbsp :: "string \<Rightarrow> string" where
  "replace_nbsp s = map (\<lambda>c. if c = CHR 0xA0 then CHR '' '' else c) s"

text \<open>
  \<^verbatim>\<open>clean\<close> of \<^verbatim>\<open>rebuild_events_safe.py\<close> and \<^verbatim>\<open>extract_all_events.py\<close> on a string;
  \<open>clean_opt\<close> is the same function on a value that may be \<^verbatim>\<open>None\<close> (\<^verbatim>\<open>s or ""\<close>).
\<close>

definition clean :: "string \<Rightarrow> string" where
  "clean s = strip (sub_ws False (replace_nbsp s))"

definition clean_opt :: "string option \<Rightarrow> string" where
  "clean_opt s = clean (case s of None \<Rightarrow> [] | Some t \<Rightarrow> t)"

text \<open>\<^verbatim>\<open>normalize_title\<close> of \<^verbatim>\<open>rebuild_events_safe.py\<close>.\<close>

definition normalize_title :: "string \<Rightarrow> string" where
  "normalize_title t =
     strip (sub_ws False (filter (\<lambda>c. is_word c \<or> is_space c) (lower (clean t))))"

text \<open>
  \<^verbatim>\<open>normalize_title\<close> of \<^verbatim>\<open>extract_all_events.py\<close>: no second whitespace collapse.
\<close>

definition normalize_title_all :: "string \<Rightarrow> string" where
  "normalize_title_all t = filter (\<lambda>c. is_word c \<or> is_space c) (lower (clean t))"

text \<open>\<^verbatim>\<open>normalize_loc\<close> of \<^verbatim>\<open>rebuild_events_safe.py\<close>; a falsy argument gives \<^verbatim>\<open>None\<close>.\<close>

definition has_c_prefix :: "string \<Rightarrow> bool" where
  "has_c_prefix s = (take 2 (lower s) = ''c_'')"

definition normalize_loc :: "string option \<Rightarrow> string option" where
  "normalize_loc loc =
     (case loc of
        None \<Rightarrow> None
      | Some l \<Rightarrow>
          if l = [] then None
          else (let l' = clean l in Some (if has_c_prefix l' then drop 2 l' else l')))"

subsection \<open>Title canonicalisation (\<^verbatim>\<open>fundraiser_analytics.py\<close>)\<close>

text \<open>
  \<^verbatim>\<open>re.sub(r"\bhost\b.*$", "", t)\<close>. The pattern matches at the first position where the
  word \<^verbatim>\<open>host\<close> stands between two word boundaries and the rest of the text holds no line
  break other than a final one (\<^verbatim>\<open>.\<close> does not match a line break, \<^verbatim>\<open>$\<close> matches at the
  end and before a final line break). \<open>prev_word\<close> says whether the previous character
  is a word character.
\<close>

definition host_here :: "string \<Rightarrow> bool" where
  "host_here s =
     (take 4 s = ''host'' \<and>
      (case drop 4 s of [] \<Rightarrow> True | d # _ \<Rightarrow> \<not> is_word d) \<and>
      CHR 0x0A \<notin> set (butlast (drop 4 s)))"

fun sub_host :: "bool \<Rightarrow> string \<Rightarrow> string" where
  "sub_host prev_word [] = []"
| "sub_host prev_word (c # cs) =
     (if \<not> prev_word \<and> host_here (c # cs)
      then (if last (c # cs) = CHR 0x0A then [CHR 0x0A] else [])
      else c # sub_host (is_word c) cs)"

text \<open>\<^verbatim>\<open>re.sub(r"[^\w\s]", " ", t)\<close>.\<close>

definition punct_to_space :: "string \<Rightarrow> string" where
  "punct_to_space t = map (\<lambda>c. if is_word c \<or> is_space c then c else CHR '' '') t"

definition FIXES :: "(string \<times> string) list" where
  "FIXES = [(''arabic scool at bilal'', ''arabic school at bilal''),
            (''arabic scool'', ''arabic school'')]"

definition canonical_title :: "string \<Rightarrow> string" where
  "canonical_title t0 =
     (let t = lower (clean t0);
          t = strip (sub_host False t);
          t = punct_to_space t;
          t = strip (sub_ws False t)
      in case map_of FIXES t of Some t' \<Rightarrow> t' | None \<Rightarrow> t)"

text \<open>\<^verbatim>\<open>canonical_loc\<close> of \<^verbatim>\<open>fundraiser_analytics.py\<close>.\<close>

definition canonical_loc :: "string \<Rightarrow> string" where
  "canonical_loc loc0 =
     (let loc = clean loc0 in
      if loc = [] then [] else if has_c_prefix loc then drop 2 loc else loc)"

section \<open>Date parsing\<close>

text \<open>\<^verbatim>\<open>d.split("/")\<close>: the result always has at least one part.\<close>

fun split_on :: "char \<Rightarrow> string \<Rightarrow> string list" where
  "split_on sep [] = [[]]"
| "split_on sep (c # cs) =
     (if c = sep then [] # split_on sep cs
      else (let r = split_on sep cs in (c # hd r) # tl r))"

text \<open>
  \<^verbatim>\<open>int(s)\<close> on a string: surrounding whitespace is ignored (for \<^verbatim>\<open>int\<close> that is tab to
  carriage return, space, and the code points 0x85 and 0xA0), then an optional sign, then
  decimal digits in which single underscores may separate digits; Python 3.11 and later
  refuse a text of more than 4300 digits. \<open>None\<close> stands for the \<^verbatim>\<open>ValueError\<close>.
\<close>

definition int_space :: "char \<Rightarrow> bool" where
  "int_space c = (let n = code c in (9 \<le> n \<and> n \<le> 13) \<or> n = 32 \<or> n = 133 \<or> n = 160)"

definition digit_val :: "char \<Rightarrow> nat" where
  "digit_val c = code c - 48"

fun digits_from :: "nat \<Rightarrow> string \<Rightarrow> nat option" where
  "digits_from acc [] = Some acc"
| "digits_from acc [c] = (if is_digit c then Some (acc * 10 + digit_val c) else None)"
| "digits_from acc (c # d # ds) =
     (if is_digit c then digits_from (acc * 10 + digit_val c) (d # ds)
      else if c = CHR ''_'' \<and> is_digit d then digits_from (acc * 10 + digit_val d) ds
      else None)"

definition py_nat :: "string \<Rightarrow> nat option" where
  "py_nat s =
     (case s of
        [] \<Rightarrow> None
      | c # cs \<Rightarrow>
          if is_digit c \<and> length (filter is_digit s) \<le> 4300 then digits_from 0 s else None)"

definition py_int :: "string \<Rightarrow> int option" where
  "py_int s0 =
     (let s = rev (dropWhile int_space (rev (dropWhile int_space s0))) in
      case s of
        [] \<Rightarrow> None
      | c # cs \<Rightarrow>
          if c = CHR ''-'' then map_option (\<lambda>n. - int n) (py_nat cs)
          else if c = CHR ''+'' then map_option int (py_nat cs)
          else map_option int (py_nat s))"

text \<open>Decimal digits of a natural number, and the format specs \<^verbatim>\<open>04d\<close> and \<^verbatim>\<open>02d\<close>.\<close>

fun digits_of :: "nat \<Rightarrow> string" where
  "digits_of n = (if n < 10 then [char_of (48 + n)] else digits_of (n div 10) @ [char_of (48 + n mod 10)])"

declare digits_of.simps [simp del]

definition format_0d :: "nat \<Rightarrow> int \<Rightarrow> string" where
  "format_0d width n =
     (let sign = (if n < 0 then ''-'' else []); ds = digits_of (nat \<bar>n\<bar>)
      in sign @ replicate (width - length sign - length ds) CHR ''0'' @ ds)"

text \<open>
  \<^verbatim>\<open>parse_date_str\<close>, the same function in \<^verbatim>\<open>rebuild_events_safe.py\<close> and in
  \<^verbatim>\<open>extract_all_events.py\<close>. The bare \<^verbatim>\<open>except\<close> turns a failing \<^verbatim>\<open>int\<close> into \<^verbatim>\<open>None\<close>.
\<close>

definition parse_date_str :: "string \<Rightarrow> string option" where
  "parse_date_str d =
     (let parts = split_on CHR ''/'' d in
      if length parts < 3 then None
      else (case py_int (parts ! 0) of
              None \<Rightarrow> None
            | Some y \<Rightarrow>
                (case py_int (parts ! 1) of
                   None \<Rightarrow> None
                 | Some m \<Rightarrow>
                     (case py_int (parts ! 2) of
                        None \<Rightarrow> None
                      | Some dd \<Rightarrow>
                          Some (format_0d 4 y @ ''-'' @ format_0d 2 m @ ''-'' @ format_0d 2 dd)))))"

section \<open>Event extraction (\<^verbatim>\<open>rebuild_events_safe.py\<close>)\<close>

text \<open>
  The HTML parser and the regular-expression search are library code. An event block
  (one \<^verbatim>\<open>div\<close> of class \<^verbatim>\<open>CalEvent\<close>) enters the model as the answers to the queries the
  extractor makes on it:
  \<^item> \<open>div_classes\<close>: the class lists of the nested \<^verbatim>\<open>div\<close> elements, in document order;
  \<^item> \<open>time_span_text\<close>: the text of the first \<^verbatim>\<open>span\<close> of class \<^verbatim>\<open>TimeLabel\<close>, if any;
  \<^item> \<open>anchor_text\<close>: the text of the first \<^verbatim>\<open>a\<close> element, if any;
  \<^item> \<open>block_text\<close>: the text of the whole block;
  \<^item> \<open>noscript_qs\<close>: the query parameters (\<^verbatim>\<open>get_qs\<close>) of the link inside \<^verbatim>\<open>noscript\<close>,
    when that link exists and has a non-empty \<^verbatim>\<open>href\<close>;
  \<^item> \<open>popup_call\<close>: the two groups of the \<^verbatim>\<open>PopupWindow\<close> pattern of
    \<^verbatim>\<open>rebuild_events_safe.py\<close> found in the markup, if it matches;
  \<^item> \<open>popup_call_all\<close>: the same for the pattern of \<^verbatim>\<open>extract_all_events.py\<close>.
\<close>

record ev_block =
  div_classes :: "string list list"
  time_span_text :: "string option"
  anchor_text :: "string option"
  block_text :: string
  noscript_qs :: "(string \<rightharpoonup> string) option"
  popup_call :: "(string \<times> string) option"
  popup_call_all :: "(string \<times> string) option"

text \<open>The dictionary appended to \<^verbatim>\<open>rows\<close> by \<^verbatim>\<open>extract_events\<close>.\<close>

record row =
  date :: string
  year_month :: string
  year :: string
  calendar_name :: "string option"
  title :: string
  title_norm :: string
  time_label :: "string option"
  location_code :: "string option"
  event_id :: "string option"
  source_type :: string

text \<open>Python truthiness of a value that is \<^verbatim>\<open>None\<close> or a string.\<close>

definition truthy :: "string option \<Rightarrow> bool" where
  "truthy v = (case v of None \<Rightarrow> False | Some s \<Rightarrow> s \<noteq> [])"

definition structural_classes :: "string list" where
  "structural_classes = [''CalEvent'', ''EventLink'', ''DayWithEvents'']"

text \<open>
  The two nested loops over the inner \<^verbatim>\<open>div\<close> elements and their classes: in each
  \<^verbatim>\<open>div\<close> the first class that is not a structural one is stored, and the scan stops
  as soon as the stored value is truthy.
\<close>

fun scan_divs :: "string option \<Rightarrow> string list list \<Rightarrow> string option" where
  "scan_divs loc [] = loc"
| "scan_divs loc (classes # ds) =
     (let loc' = (case find (\<lambda>c. c \<notin> set structural_classes) classes of
                    Some c \<Rightarrow> Some c
                  | None \<Rightarrow> loc)
      in if truthy loc' then loc' else scan_divs loc' ds)"

definition block_title :: "ev_block \<Rightarrow> string" where
  "block_title ev =
     (let t = (case anchor_text ev of Some a \<Rightarrow> clean a | None \<Rightarrow> [])
      in if t = [] then clean (block_text ev) else t)"

definition qs_get :: "(string \<rightharpoonup> string) \<Rightarrow> string \<Rightarrow> string \<Rightarrow> string" where
  "qs_get qs k dflt = (case qs k of Some v \<Rightarrow> v | None \<Rightarrow> dflt)"

text \<open>
  The pair (\<^verbatim>\<open>event_id\<close>, \<^verbatim>\<open>date\<close>) of a block: first from the \<^verbatim>\<open>noscript\<close> link, then,
  when the date is still falsy, from the popup call, which then sets both.
\<close>

definition id_date_with :: "(string \<times> string) option \<Rightarrow> ev_block \<Rightarrow> string option \<times> string option" where
  "id_date_with popup ev =
     (let (eid, d) = (case noscript_qs ev of
                        None \<Rightarrow> (None, None)
                      | Some qs \<Rightarrow> (qs ''ID'', parse_date_str (qs_get qs ''Date'' [])))
      in if \<not> truthy d
         then (case popup of
                 Some (g1, g2) \<Rightarrow> (Some g2, parse_date_str g1)
               | None \<Rightarrow> (eid, d))
         else (eid, d))"

definition block_event_id :: "ev_block \<Rightarrow> string option" where
  "block_event_id ev = fst (id_date_with (popup_call ev) ev)"

definition block_date :: "ev_block \<Rightarrow> string option" where
  "block_date ev = snd (id_date_with (popup_call ev) ev)"

fun extract_events :: "ev_block list \<Rightarrow> string option \<Rightarrow> string \<Rightarrow> row list" where
  "extract_events [] cal src = []"
| "extract_events (ev # evs) cal src =
     (let location = normalize_loc (scan_divs None (div_classes ev));
          lbl = map_option clean (time_span_text ev);
          t = block_title ev;
          eid = block_event_id ev;
          d = block_date ev
      in if \<not> (t \<noteq> [] \<and> truthy d) then extract_events evs cal src
         else \<lparr>date = the d, year_month = take 7 (the d), year = take 4 (the d),
               calendar_name = cal, title = t, title_norm = normalize_title t,
               time_label = lbl, location_code = location, event_id = eid,
               source_type = src\<rparr>
              # extract_events evs cal src)"

text \<open>
  A manifest item as \<^verbatim>\<open>parse_manifest\<close> sees it: the \<^verbatim>\<open>CalendarName\<close> parameter of its
  original URL and the event blocks of its HTML file.
\<close>

record snapshot_doc =
  calendar_param :: "string option"
  event_blocks :: "ev_block list"

fun parse_manifest :: "snapshot_doc list \<Rightarrow> string \<Rightarrow> row list" where
  "parse_manifest [] src = []"
| "parse_manifest (it # items) src =
     extract_events (event_blocks it) (calendar_param it) src @ parse_manifest items src"

section \<open>Reconciliation (\<^verbatim>\<open>rebuild_events_safe.py\<close>)\<close>

text \<open>\<^verbatim>\<open>drop_duplicates(subset=..., keep="first")\<close>: the first row of every key stays.\<close>

fun drop_duplicates_from :: "('a \<Rightarrow> 'k) \<Rightarrow> 'k list \<Rightarrow> 'a list \<Rightarrow> 'a list" where
  "drop_duplicates_from key seen [] = []"
| "drop_duplicates_from key seen (x # xs) =
     (if key x \<in> set seen then drop_duplicates_from key seen xs
      else x # drop_duplicates_from key (key x # seen) xs)"

definition drop_duplicates :: "('a \<Rightarrow> 'k) \<Rightarrow> 'a list \<Rightarrow> 'a list" where
  "drop_duplicates key xs = drop_duplicates_from key [] xs"

text \<open>\<^verbatim>\<open>notna\<close> and \<^verbatim>\<open>isna\<close> on a cell that is \<^verbatim>\<open>None\<close> or a string.\<close>

definition notna :: "string option \<Rightarrow> bool" where
  "notna v = (v \<noteq> None)"

definition isna :: "string option \<Rightarrow> bool" where
  "isna v = (v = None)"

definition has_event_id :: "row \<Rightarrow> nat" where
  "has_event_id r = (if notna (event_id r) then 1 else 0)"

definition has_location :: "row \<Rightarrow> nat" where
  "has_location r = (if notna (location_code r) then 1 else 0)"

definition source_rank :: "row \<Rightarrow> nat" where
  "source_rank r =
     (if source_type r = ''month_block'' then 0
      else if source_type r = ''day_block'' then 1 else 9)"

text \<open>
  The key of \<^verbatim>\<open>sort_values\<close>: date, title_norm and source_rank ascending, has_event_id
  and has_location descending. Strings compare by code point; the sort is stable.
\<close>

definition sort_values_key :: "row \<Rightarrow> string \<times> string \<times> nat \<times> nat \<times> nat" where
  "sort_values_key r =
     (date r, title_norm r, source_rank r, 1 - has_event_id r, 1 - has_location r)"

definition is_bilal :: "row \<Rightarrow> bool" where
  "is_bilal r = (calendar_name r = Some ''BilalEvents'')"

text \<open>The frame \<^verbatim>\<open>df\<close> after step 3: month rows, then the day rows of missing months.\<close>

definition candidates :: "row list \<Rightarrow> row list \<Rightarrow> row list" where
  "candidates df_month df_day =
     (let df_month = filter is_bilal df_month;
          month_months = set (map year_month df_month);
          df_day = filter is_bilal df_day;
          df_day_missing = filter (\<lambda>r. year_month r \<notin> month_months) df_day
      in df_month @ df_day_missing)"

text \<open>Step 4: the sort and the two passes of \<^verbatim>\<open>drop_duplicates\<close>, giving \<^verbatim>\<open>df_final\<close>.\<close>

definition sort_values :: "row list \<Rightarrow> row list" where
  "sort_values df = sort_key sort_values_key df"

definition df_with_id :: "row list \<Rightarrow> row list" where
  "df_with_id df =
     drop_duplicates (\<lambda>r. (date r, event_id r)) (filter (\<lambda>r. notna (event_id r)) df)"

definition df_no_id :: "row list \<Rightarrow> row list" where
  "df_no_id df =
     drop_duplicates (\<lambda>r. (date r, title_norm r)) (filter (\<lambda>r. isna (event_id r)) df)"

definition dedupe :: "row list \<Rightarrow> row list" where
  "dedupe df0 = (let df = sort_values df0 in df_with_id df @ df_no_id df)"

text \<open>
  The key on which a row of \<^verbatim>\<open>df_final\<close> was deduplicated: date and event_id in the
  first pass, date and title_norm in the second.
\<close>

definition dedupe_key :: "row \<Rightarrow> (string \<times> string) + (string \<times> string)" where
  "dedupe_key r =
     (case event_id r of
        Some e \<Rightarrow> Inl (date r, e)
      | None \<Rightarrow> Inr (date r, title_norm r))"

definition reconcile :: "row list \<Rightarrow> row list \<Rightarrow> row list" where
  "reconcile df_month df_day = dedupe (candidates df_month df_day)"

text \<open>
  The script from its two manifests. \<^verbatim>\<open>pd.DataFrame(rows)\<close> of an empty list has no
  columns, so selecting \<^verbatim>\<open>calendar_name\<close> from it raises \<^verbatim>\<open>KeyError\<close>; \<open>reconcile\<close>
  is the script on frames that carry their columns.
\<close>

datatype py_error = KeyError string | TypeError

definition rebuild_events_safe :: "snapshot_doc list \<Rightarrow> snapshot_doc list \<Rightarrow> py_error + row list" where
  "rebuild_events_safe month_items day_items =
     (case parse_manifest month_items ''month_block'' of
        [] \<Rightarrow> Inl (KeyError ''calendar_name'')
      | m # ms \<Rightarrow>
          (case parse_manifest day_items ''day_block'' of
             [] \<Rightarrow> Inl (KeyError ''calendar_name'')
           | d # ds \<Rightarrow> Inr (reconcile (m # ms) (d # ds))))"

section \<open>Analytics (\<^verbatim>\<open>fundraiser_analytics.py\<close>)\<close>

text \<open>
  The canonical table travels through \<^verbatim>\<open>to_csv\<close> and \<^verbatim>\<open>read_csv\<close>. A cell of the table
  read back is text or missing (\<open>None\<close>, pandas' NaN); the model covers columns whose
  cells are text, not columns that \<^verbatim>\<open>read_csv\<close> would turn into numbers. A \<^verbatim>\<open>None\<close> is
  written as an empty field, and an empty field or one of the default missing-value
  markers is read back as missing.
\<close>

type_synonym cell = "string option"

definition na_values :: "string list" where
  "na_values = ['''', ''#N/A'', ''#N/A N/A'', ''#NA'', ''-1.#IND'', ''-1.#QNAN'', ''-NaN'',
     ''-nan'', ''1.#IND'', ''1.#QNAN'', ''<NA>'', ''N/A'', ''NA'', ''NULL'', ''NaN'', ''None'',
     ''n/a'', ''nan'', ''null'']"

definition read_cell :: "string option \<Rightarrow> cell" where
  "read_cell v = (case v of None \<Rightarrow> None | Some s \<Rightarrow> if s \<in> set na_values then None else Some s)"

text \<open>The columns of \<^verbatim>\<open>events_master_clean.csv\<close> that the analytics stage reads.\<close>

record csv_row =
  csv_date :: cell
  csv_title :: cell
  csv_time_label :: cell
  csv_location_code :: cell

definition to_csv_read_csv :: "row list \<Rightarrow> csv_row list" where
  "to_csv_read_csv df_final =
     map (\<lambda>r. \<lparr>csv_date = read_cell (Some (date r)), csv_title = read_cell (Some (title r)),
               csv_time_label = read_cell (time_label r),
               csv_location_code = read_cell (location_code r)\<rparr>) df_final"

text \<open>\<^verbatim>\<open>astype(str)\<close> and \<^verbatim>\<open>str(s)\<close> on a cell: a missing value becomes the text \<^verbatim>\<open>nan\<close>.\<close>

definition astype_str :: "cell \<Rightarrow> string" where
  "astype_str c = (case c of None \<Rightarrow> ''nan'' | Some s \<Rightarrow> s)"

text \<open>A row of the frame \<^verbatim>\<open>df\<close> of \<^verbatim>\<open>main\<close> once \<^verbatim>\<open>event_key\<close> is set.\<close>

record event_row =
  date_a :: string
  year_int :: nat
  year_month_a :: string
  title_canonical :: string
  location_code_a :: string
  time_label_a :: string
  event_key :: string

text \<open>\<^verbatim>\<open>str.match(r"^\d{4}$")\<close> on the first four characters of the date.\<close>

definition year_ok :: "string \<Rightarrow> bool" where
  "year_ok y = (length y = 4 \<and> list_all is_digit y)"

definition make_event_key :: "string \<Rightarrow> string \<Rightarrow> string \<Rightarrow> string" where
  "make_event_key d t lbl = clean d @ ''||'' @ lower (clean t) @ ''||'' @ lower (clean lbl)"

text \<open>
  Lines 97 to 126 of \<^verbatim>\<open>main\<close> on one row: \<open>None\<close> when the row is filtered out (its year
  is not four digits, or its canonical title is empty). The table has no
  \<^verbatim>\<open>title_canonical\<close> column, so the title is canonicalised from \<^verbatim>\<open>title\<close>; the time label
  is the \<^verbatim>\<open>time_label\<close> column (\<^verbatim>\<open>pick_time_series\<close>).
\<close>

definition prepare_row :: "csv_row \<Rightarrow> event_row option" where
  "prepare_row r =
     (let d = clean (astype_str (csv_date r));
          y = take 4 d
      in if \<not> year_ok y then None
         else (let tc = canonical_title (clean (astype_str (csv_title r)));
                   loc = canonical_loc (astype_str (csv_location_code r));
                   lbl = clean (astype_str (csv_time_label r))
               in if tc = [] then None
                  else Some \<lparr>date_a = d, year_int = the (py_nat y), year_month_a = take 7 d,
                             title_canonical = tc, location_code_a = loc, time_label_a = lbl,
                             event_key = make_event_key d tc lbl\<rparr>))"

definition prepare :: "csv_row list \<Rightarrow> event_row list" where
  "prepare df = List.map_filter prepare_row df"

definition events_unique :: "csv_row list \<Rightarrow> event_row list" where
  "events_unique df = drop_duplicates event_key (prepare df)"

definition venue_bookings :: "csv_row list \<Rightarrow> event_row list" where
  "venue_bookings df =
     drop_duplicates (\<lambda>r. (event_key r, location_code_a r))
       (filter (\<lambda>r. location_code_a r \<noteq> []) (prepare df))"

text \<open>A venue booking is the pair (\<^verbatim>\<open>event_key\<close>, \<^verbatim>\<open>location_code\<close>) of such a row.\<close>

definition booking :: "event_row \<Rightarrow> string \<times> string" where
  "booking r = (event_key r, location_code_a r)"

subsection \<open>Yearly growth\<close>









section \<open>The other extractor (\<^verbatim>\<open>extract_all_events.py\<close>)\<close>

text \<open>
  \<^verbatim>\<open>extract_events_from_html\<close> keeps a block without a date; \<^verbatim>\<open>main\<close> removes such rows
  before it removes duplicates. The location code is stored as found.
\<close>

record row_all =
  date_all :: "string option"
  title_all :: string
  title_norm_all :: string
  time_label_all :: "string option"
  location_code_all :: "string option"
  calendar_name_all :: "string option"
  event_id_all :: "string option"
  source_type_all :: string

fun extract_events_from_html :: "ev_block list \<Rightarrow> string option \<Rightarrow> string \<Rightarrow> row_all list" where
  "extract_events_from_html [] cal src = []"
| "extract_events_from_html (ev # evs) cal src =
     (let location = scan_divs None (div_classes ev);
          lbl = map_option clean (time_span_text ev);
          t = block_title ev;
          (eid, d) = id_date_with (popup_call_all ev) ev
      in if t = [] then extract_events_from_html evs cal src
         else \<lparr>date_all = d, title_all = t, title_norm_all = normalize_title_all t,
               time_label_all = lbl, location_code_all = location, calendar_name_all = cal,
               event_id_all = eid, source_type_all = src\<rparr>
              # extract_events_from_html evs cal src)"

fun process_manifest :: "snapshot_doc list \<Rightarrow> string \<Rightarrow> row_all list" where
  "process_manifest [] src = []"
| "process_manifest (it # items) src =
     extract_events_from_html (event_blocks it) (calendar_param it) src
     @ process_manifest items src"

text \<open>
  \<^verbatim>\<open>main\<close> up to the removal of duplicates. When neither manifest yields a row the
  concatenated frame has no \<^verbatim>\<open>date\<close> column and the selection raises \<^verbatim>\<open>KeyError\<close>.
\<close>

definition extract_all_events :: "snapshot_doc list \<Rightarrow> snapshot_doc list \<Rightarrow> py_error + row_all list" where
  "extract_all_events month_items day_items =
     (let df_month = process_manifest month_items ''month_block'';
          df_day = process_manifest day_items ''day_block'';
          all_events = df_month @ df_day
      in case all_events of
           [] \<Rightarrow> Inl (KeyError ''date'')
         | _ # _ \<Rightarrow>
             Inr (drop_duplicates (\<lambda>r. (date_all r, title_norm_all r, location_code_all r))
                    (filter (\<lambda>r. notna (date_all r)) all_events)))"

section \<open>Manifest partitioning (\<^verbatim>\<open>make_verified_manifests.py\<close>)\<close>

text \<open>\<^verbatim>\<open>sub in s\<close> on strings.\<close>

fun contains :: "string \<Rightarrow> string \<Rightarrow> bool" where
  "contains sub [] = (sub = [])"
| "contains sub (c # cs) = (take (length sub) (c # cs) = sub \<or> contains sub cs)"

datatype html_type = T_event_popup | T_month_block | T_calendar_grid_other | T_feed
  | T_calcium_other | T_other

definition classify_html :: "string \<Rightarrow> html_type" where
  \<open>classify_html html =
     (let low = lower html in
      if contains ''class="eventpopup"'' low \<or> contains ''id="eventsummary"'' low
      then T_event_popup
      else if contains ''class="calblock"'' low \<or> contains (''class='' @ [CHR 0x27] @ ''calblock'' @ [CHR 0x27]) low
      then (if contains ''class="blockview"'' low \<or> contains (''class='' @ [CHR 0x27] @ ''blockview'' @ [CHR 0x27]) low
            then T_month_block else T_calendar_grid_other)
      else if contains ''<rss'' low \<or> contains ''<feed'' low \<or> contains ''op=rss'' low
      then T_feed
      else if contains ''calcium web calendar'' low \<or> contains ''brownbearsw.com'' low
      then T_calcium_other
      else T_other)\<close>

text \<open>
  \<^verbatim>\<open>re.search(r'(?i)\bCalEvent\b', html)\<close>: the word, in any letter case, between two
  word boundaries.
\<close>

fun has_CalEvent :: "bool \<Rightarrow> string \<Rightarrow> bool" where
  "has_CalEvent prev_word [] = False"
| "has_CalEvent prev_word (c # cs) =
     ((\<not> prev_word \<and> lower (take 8 (c # cs)) = ''calevent'' \<and>
       (case drop 8 (c # cs) of [] \<Rightarrow> True | d # _ \<Rightarrow> \<not> is_word d))
      \<or> has_CalEvent (is_word c) cs)"

text \<open>
  A manifest entry; \<open>None\<close> is a key that is absent. The file system maps a path to the
  text of the file stored there, and \<open>get_qs\<close> (URL parsing, library code) is a parameter.
\<close>

record manifest_entry =
  timestamp :: string
  original :: "string option"
  path :: "string option"

record sub_manifests =
  month_block :: "manifest_entry list"
  event_popup :: "manifest_entry list"
  day_block :: "manifest_entry list"
  other :: "manifest_entry list"

datatype bucket = Month_block | Event_popup | Day_block | Other

text \<open>The body of the loop as a decision: \<open>None\<close> is the \<^verbatim>\<open>continue\<close> of a skipped entry.\<close>

definition route :: "(string \<Rightarrow> string \<rightharpoonup> string) \<Rightarrow> (string \<rightharpoonup> string) \<Rightarrow> manifest_entry \<Rightarrow> bucket option" where
  "route get_qs fs it =
     (case path it of
        None \<Rightarrow> None
      | Some p \<Rightarrow>
          if p = [] then None
          else (case fs p of
                  None \<Rightarrow> None
                | Some html \<Rightarrow>
                    (let html_type = classify_html html;
                         qs = get_qs (case original it of None \<Rightarrow> [] | Some u \<Rightarrow> u);
                         op = qs_get qs ''Op'' []
                     in if html_type = T_month_block \<and> (op = ''ShowIt'' \<or> op = ''ShowMonth'')
                        then Some Month_block
                        else if html_type = T_event_popup then Some Event_popup
                        else if op = ''ShowDay'' \<and> has_CalEvent False html then Some Day_block
                        else Some Other)))"

definition append_to :: "bucket \<Rightarrow> manifest_entry \<Rightarrow> sub_manifests \<Rightarrow> sub_manifests" where
  "append_to b it s =
     (case b of
        Month_block \<Rightarrow> s\<lparr>month_block := month_block s @ [it]\<rparr>
      | Event_popup \<Rightarrow> s\<lparr>event_popup := event_popup s @ [it]\<rparr>
      | Day_block \<Rightarrow> s\<lparr>day_block := day_block s @ [it]\<rparr>
      | Other \<Rightarrow> s\<lparr>other := other s @ [it]\<rparr>)"

fun partition_loop :: "(string \<Rightarrow> string \<rightharpoonup> string) \<Rightarrow> (string \<rightharpoonup> string) \<Rightarrow> manifest_entry list \<Rightarrow> sub_manifests \<Rightarrow> sub_manifests" where
  "partition_loop get_qs fs [] s = s"
| "partition_loop get_qs fs (it # data) s =
     (case route get_qs fs it of
        None \<Rightarrow> partition_loop get_qs fs data s
      | Some b \<Rightarrow> partition_loop get_qs fs data (append_to b it s))"

text \<open>
  Everything the script leaves behind: the four files it writes and the four counts it
  prints.
\<close>

record partition_output =
  written :: sub_manifests
  printed :: "(string \<times> nat) list"

definition make_verified_manifests :: "(string \<Rightarrow> string \<rightharpoonup> string) \<Rightarrow> (string \<rightharpoonup> string) \<Rightarrow> manifest_entry list \<Rightarrow> partition_output" where
  "make_verified_manifests get_qs fs data =
     (let s = partition_loop get_qs fs data
                \<lparr>month_block = [], event_popup = [], day_block = [], other = []\<rparr>
      in \<lparr>written = s,
          printed = [(''month_block:'', length (month_block s)),
                     (''event_popup:'', length (event_popup s)),
                     (''day_block:'', length (day_block s)),
                     (''other:'', length (other s))]\<rparr>)"

section \<open>Notions used to state the properties\<close>

text \<open>The sub-manifest that belongs to a bucket.\<close>

definition bucket_of :: "sub_manifests \<Rightarrow> bucket \<Rightarrow> manifest_entry list" where
  "bucket_of s b =
     (case b of
        Month_block \<Rightarrow> month_block s
      | Event_popup \<Rightarrow> event_popup s
      | Day_block \<Rightarrow> day_block s
      | Other \<Rightarrow> other s)"

text \<open>The test \<^verbatim>\<open>not p or not Path(p).exists()\<close> of the partitioning loop.\<close>

definition skipped :: "(string \<rightharpoonup> string) \<Rightarrow> manifest_entry \<Rightarrow> bool" where
  "skipped fs it = (case path it of None \<Rightarrow> True | Some p \<Rightarrow> p = [] \<or> fs p = None)"

text \<open>The variable \<^verbatim>\<open>op\<close> of the partitioning loop.\<close>

definition url_op :: "(string \<Rightarrow> string \<rightharpoonup> string) \<Rightarrow> manifest_entry \<Rightarrow> string" where
  "url_op get_qs it = qs_get (get_qs (case original it of None \<Rightarrow> [] | Some u \<Rightarrow> u)) ''Op'' []"


section \<open>Sample inputs\<close>

text \<open>
  An event block of a month page: Friday Prayer on 21 May 2021 at 1:00 PM, venue class
  \<^verbatim>\<open>c_Masjid\<close>, popup link with \<^verbatim>\<open>ID=899\<close> and \<^verbatim>\<open>Date=2021/5/21\<close>; and the row extracted
  from it.
\<close>

definition friday_block :: ev_block where
  "friday_block =
     \<lparr>div_classes = [[''EventLink''], [''c_Masjid'']], time_span_text = Some ''1:00 PM'',
      anchor_text = Some ''Friday Prayer'', block_text = ''1:00 PM Friday Prayer'',
      noscript_qs = Some [''ID'' \<mapsto> ''899'', ''Date'' \<mapsto> ''2021/5/21''],
      popup_call = None, popup_call_all = None\<rparr>"

definition friday_row :: row where
  "friday_row =
     \<lparr>date = ''2021-05-21'', year_month = ''2021-05'', year = ''2021'',
      calendar_name = Some ''BilalEvents'', title = ''Friday Prayer'',
      title_norm = ''friday prayer'', time_label = Some ''1:00 PM'',
      location_code = Some ''Masjid'', event_id = Some ''899'', source_type = ''month_block''\<rparr>"

text \<open>The same event without a venue class, as a month page may show it.\<close>

definition friday_plain_block :: ev_block where
  "friday_plain_block = friday_block\<lparr>div_classes := [[''EventLink'']]\<rparr>"

definition friday_plain_row :: row where
  "friday_plain_row = friday_row\<lparr>location_code := None\<rparr>"

text \<open>The same event as a day page shows it, and an event of the following month.\<close>

definition friday_day_row :: row where
  "friday_day_row = friday_row\<lparr>source_type := ''day_block''\<rparr>"

definition june_block :: ev_block where
  "june_block =
     \<lparr>div_classes = [[''Gym'']], time_span_text = None,
      anchor_text = Some ''Youth Night'', block_text = ''Youth Night'',
      noscript_qs = None, popup_call = Some (''2021/6/4'', ''910''),
      popup_call_all = Some (''2021/6/4'', ''910'')\<rparr>"

definition june_row :: row where
  "june_row =
     \<lparr>date = ''2021-06-04'', year_month = ''2021-06'', year = ''2021'',
      calendar_name = Some ''BilalEvents'', title = ''Youth Night'',
      title_norm = ''youth night'', time_label = None,
      location_code = Some ''Gym'', event_id = Some ''910'', source_type = ''day_block''\<rparr>"

definition sample_month_items :: "snapshot_doc list" where
  "sample_month_items =
     [\<lparr>calendar_param = Some ''BilalEvents'', event_blocks = [friday_plain_block]\<rparr>]"

definition sample_day_items :: "snapshot_doc list" where
  "sample_day_items =
     [\<lparr>calendar_param = Some ''BilalEvents'', event_blocks = [friday_block, june_block]\<rparr>]"


text \<open>A block whose link carries no date and whose markup holds no popup call.\<close>

definition undated_block :: ev_block where
  "undated_block =
     \<lparr>div_classes = [[''Masjid'']], time_span_text = Some ''7:00 PM'',
      anchor_text = Some ''Halaqa'', block_text = ''7:00 PM Halaqa'',
      noscript_qs = Some [''ID'' \<mapsto> ''77''], popup_call = None, popup_call_all = None\<rparr>"

text \<open>The Friday block with the impossible date 45th of month 13.\<close>

definition impossible_block :: ev_block where
  "impossible_block =
     friday_block\<lparr>noscript_qs := Some [''ID'' \<mapsto> ''899'', ''Date'' \<mapsto> ''2021/13/45'']\<rparr>"

text \<open>
  One dinner shown twice on a month page, once per venue, with a link that carries a date
  and no \<^verbatim>\<open>ID\<close>; and the two rows extracted from the two blocks.
\<close>

definition dinner_block :: "string \<Rightarrow> ev_block" where
  "dinner_block venue =
     \<lparr>div_classes = [[venue]], time_span_text = Some ''6:00 PM'',
      anchor_text = Some ''Community Dinner'', block_text = ''6:00 PM Community Dinner'',
      noscript_qs = Some [''Date'' \<mapsto> ''2021/5/22''], popup_call = None,
      popup_call_all = None\<rparr>"

definition dinner_row :: "string \<Rightarrow> row" where
  "dinner_row venue =
     \<lparr>date = ''2021-05-22'', year_month = ''2021-05'', year = ''2021'',
      calendar_name = Some ''BilalEvents'', title = ''Community Dinner'',
      title_norm = ''community dinner'', time_label = Some ''6:00 PM'',
      location_code = Some venue, event_id = None, source_type = ''month_block''\<rparr>"

definition dinner_rows :: "row list" where
  "dinner_rows =
     extract_events [dinner_block ''Hall'', dinner_block ''Gym''] (Some ''BilalEvents'')
       ''month_block''"


text \<open>
  A manifest of five entries, the files behind them, and the query parameters of their
  URLs: a month page, a day page with an event, an entry whose file was never written,
  an entry without a path, and a file of zero length.
\<close>

definition entry :: "string \<Rightarrow> string option \<Rightarrow> manifest_entry" where
  "entry url p = \<lparr>timestamp = ''20210601000000'', original = Some url, path = p\<rparr>"

definition sample_get_qs :: "string \<Rightarrow> string \<rightharpoonup> string" where
  "sample_get_qs url =
     (if url = ''http://cal/c.php?Op=ShowIt'' then [''Op'' \<mapsto> ''ShowIt'']
      else if url = ''http://cal/c.php?Op=ShowDay'' then [''Op'' \<mapsto> ''ShowDay'']
      else Map.empty)"

definition sample_fs :: "string \<rightharpoonup> string" where
  "sample_fs =
     [''m.html'' \<mapsto> ''<table class='CalBlock'><div class='BlockView'></div></table>'',
      ''d.html'' \<mapsto> ''<div class=CalEvent>Halaqa</div>'',
      ''z.html'' \<mapsto> []]"

definition e_month :: manifest_entry where
  "e_month = entry ''http://cal/c.php?Op=ShowIt'' (Some ''m.html'')"

definition e_day :: manifest_entry where
  "e_day = entry ''http://cal/c.php?Op=ShowDay'' (Some ''d.html'')"

definition e_missing :: manifest_entry where
  "e_missing = entry ''http://cal/c.php?Op=ShowIt'' (Some ''gone.html'')"

definition e_nopath :: manifest_entry where
  "e_nopath = entry ''http://cal/c.php?Op=ShowDay'' None"

definition e_empty :: manifest_entry where
  "e_empty = entry ''http://cal/c.php?Op=ShowDay'' (Some ''z.html'')"

section \<open>Facts about the building blocks\<close>

subsection \<open>Removing duplicates and finding the first row of a key\<close>

lemma ddf_subset: "set (drop_duplicates_from key seen xs) \<subseteq> set xs"
  by (induction xs arbitrary: seen) auto

lemma ddf_keys: "key ` set (drop_duplicates_from key seen xs) = key ` set xs - set seen"
  by (induction xs arbitrary: seen) auto

lemma ddf_distinct: "distinct (map key (drop_duplicates_from key seen xs))"
proof (induction xs arbitrary: seen)
  case Nil
  then show ?case by simp
next
  case (Cons x xs)
  have "key x \<notin> key ` set (drop_duplicates_from key (key x # seen) xs)"
    by (simp add: ddf_keys)
  with Cons show ?case by simp
qed

lemma ddf_find:
  "find (\<lambda>z. key z = k) (drop_duplicates_from key seen xs) =
     (if k \<in> set seen then None else find (\<lambda>z. key z = k) xs)"
proof (induction xs arbitrary: seen)
  case Nil
  then show ?case by simp
next
  case (Cons x xs)
  then show ?case by auto
qed

lemma ddf_length: "length (drop_duplicates_from key seen xs) \<le> length xs"
  by (induction xs arbitrary: seen) (auto simp: le_SucI)

lemma drop_duplicates_subset: "set (drop_duplicates key xs) \<subseteq> set xs"
  by (simp add: drop_duplicates_def ddf_subset)

lemma drop_duplicates_keys: "key ` set (drop_duplicates key xs) = key ` set xs"
  by (simp add: drop_duplicates_def ddf_keys)

lemma drop_duplicates_distinct: "distinct (map key (drop_duplicates key xs))"
  by (simp add: drop_duplicates_def ddf_distinct)

lemma drop_duplicates_find:
  "find (\<lambda>z. key z = k) (drop_duplicates key xs) = find (\<lambda>z. key z = k) xs"
  by (simp add: drop_duplicates_def ddf_find)

lemma drop_duplicates_length: "length (drop_duplicates key xs) \<le> length xs"
  by (simp add: drop_duplicates_def ddf_length)

lemma distinct_key_filter_single:
  "distinct (map f xs) \<Longrightarrow> x \<in> set xs \<Longrightarrow> filter (\<lambda>y. f y = f x) xs = [x]"
proof (induction xs)
  case Nil
  then show ?case by simp
next
  case (Cons a xs)
  show ?case
  proof (cases "a = x")
    case True
    from Cons.prems have "f a \<notin> f ` set xs" by simp
    with True have "\<forall>y\<in>set xs. f y \<noteq> f x" by (metis imageI)
    then have "filter (\<lambda>y. f y = f x) xs = []" by (simp add: filter_empty_conv)
    with True show ?thesis by simp
  next
    case False
    with Cons.prems have "x \<in> set xs" and "f a \<noteq> f x" by auto
    with Cons show ?thesis by simp
  qed
qed

lemma find_sorted_least:
  "sorted (map f xs) \<Longrightarrow> find P xs = Some k \<Longrightarrow> m \<in> set xs \<Longrightarrow> P m \<Longrightarrow> f k \<le> f m"
proof (induction xs)
  case Nil
  then show ?case by simp
next
  case (Cons a xs)
  show ?case
  proof (cases "P a")
    case True
    with Cons.prems have "k = a" by simp
    with Cons.prems show ?thesis by auto
  next
    case False
    with Cons.prems have "find P xs = Some k" "m \<in> set xs" "sorted (map f xs)" by auto
    with Cons show ?thesis by blast
  qed
qed

lemma find_distinct_key:
  "distinct (map f xs) \<Longrightarrow> x \<in> set xs \<Longrightarrow> find (\<lambda>y. f y = f x) xs = Some x"
proof (induction xs)
  case Nil
  then show ?case by simp
next
  case (Cons a xs)
  then show ?case by (cases "a = x") (auto simp: image_iff)
qed

subsection \<open>Extraction\<close>

lemma extract_events_fields:
  "r \<in> set (extract_events evs cal src) \<Longrightarrow>
     source_type r = src \<and> year_month r = take 7 (date r) \<and> calendar_name r = cal"
  by (induction evs) (auto simp: Let_def split: if_splits)

lemma parse_manifest_fields:
  "r \<in> set (parse_manifest items src) \<Longrightarrow> source_type r = src \<and> year_month r = take 7 (date r)"
  by (induction items) (auto dest: extract_events_fields)

subsection \<open>The two passes of the reconciliation\<close>

lemma dd_filter_set: "set (drop_duplicates k (filter P xs)) \<subseteq> {x \<in> set xs. P x}"
  using drop_duplicates_subset [of k "filter P xs"] by auto

lemma set_sort_values [simp]: "set (sort_values df) = set df"
  by (simp add: sort_values_def)

lemma dedupe_passes: "dedupe df = df_with_id (sort_values df) @ df_no_id (sort_values df)"
  by (simp add: dedupe_def Let_def)

lemma df_with_id_set: "set (df_with_id (sort_values df)) \<subseteq> {r \<in> set df. notna (event_id r)}"
  unfolding df_with_id_def using dd_filter_set [of _ _ "sort_values df"] by auto

lemma df_no_id_set: "set (df_no_id (sort_values df)) \<subseteq> {r \<in> set df. isna (event_id r)}"
  unfolding df_no_id_def using dd_filter_set [of _ _ "sort_values df"] by auto

lemma set_dedupe: "set (dedupe df) \<subseteq> set df"
  using df_with_id_set [of df] df_no_id_set [of df] by (auto simp: dedupe_passes)

lemma candidates_cases:
  "r \<in> set (candidates M D) \<longleftrightarrow>
     (r \<in> set M \<and> is_bilal r) \<or>
     (r \<in> set D \<and> is_bilal r \<and> year_month r \<notin> year_month ` {m \<in> set M. is_bilal m})"
  by (auto simp: candidates_def Let_def)

lemma dedupe_key_with_id: "notna (event_id r) \<Longrightarrow> dedupe_key r = Inl (date r, the (event_id r))"
  by (auto simp: dedupe_key_def notna_def)

lemma dedupe_key_no_id: "isna (event_id r) \<Longrightarrow> dedupe_key r = Inr (date r, title_norm r)"
  by (auto simp: dedupe_key_def isna_def)

lemma df_with_id_distinct: "distinct (map dedupe_key (df_with_id (sort_values df)))"
proof -
  have d: "distinct (map (\<lambda>r. (date r, event_id r)) (df_with_id (sort_values df)))"
    unfolding df_with_id_def by (rule drop_duplicates_distinct)
  then have "inj_on (\<lambda>r. (date r, event_id r)) (set (df_with_id (sort_values df)))" and dw: "distinct (df_with_id (sort_values df))"
    by (simp_all add: distinct_map)
  then have "inj_on dedupe_key (set (df_with_id (sort_values df)))"
    by (auto simp: inj_on_def dedupe_key_def split: option.splits)
  with dw show ?thesis by (simp add: distinct_map)
qed

lemma df_no_id_distinct: "distinct (map dedupe_key (df_no_id (sort_values df)))"
proof -
  have d: "distinct (map (\<lambda>r. (date r, title_norm r)) (df_no_id (sort_values df)))"
    unfolding df_no_id_def by (rule drop_duplicates_distinct)
  then have i: "inj_on (\<lambda>r. (date r, title_norm r)) (set (df_no_id (sort_values df)))" and dn: "distinct (df_no_id (sort_values df))"
    by (simp_all add: distinct_map)
  have "inj_on dedupe_key (set (df_no_id (sort_values df)))"
  proof (rule inj_onI)
    fix x y assume xy: "x \<in> set (df_no_id (sort_values df))" "y \<in> set (df_no_id (sort_values df))" "dedupe_key x = dedupe_key y"
    then have "isna (event_id x)" "isna (event_id y)" using df_no_id_set [of df] by auto
    with xy(3) have "(date x, title_norm x) = (date y, title_norm y)" by (simp add: dedupe_key_no_id)
    with i xy show "x = y" by (auto dest: inj_onD)
  qed
  with dn show ?thesis by (simp add: distinct_map)
qed

lemma dedupe_distinct: "distinct (map dedupe_key (dedupe df))"
proof -
  have "dedupe_key ` set (df_with_id (sort_values df)) \<inter> dedupe_key ` set (df_no_id (sort_values df)) = {}"
  proof -
    have "dedupe_key x \<noteq> dedupe_key y" if "x \<in> set (df_with_id (sort_values df))" "y \<in> set (df_no_id (sort_values df))" for x y
    proof -
      from that have "notna (event_id x)" "isna (event_id y)"
        using df_with_id_set [of df] df_no_id_set [of df] by auto
      then show ?thesis by (simp add: dedupe_key_with_id dedupe_key_no_id)
    qed
    then show ?thesis by blast
  qed
  then show ?thesis
    by (simp add: dedupe_passes df_with_id_distinct df_no_id_distinct)
qed

lemma dedupe_keys: "dedupe_key ` set (dedupe df) = dedupe_key ` set df"
proof (intro set_eqI iffI)
  fix k assume "k \<in> dedupe_key ` set (dedupe df)"
  then show "k \<in> dedupe_key ` set df" using set_dedupe by blast
next
  fix k assume "k \<in> dedupe_key ` set df"
  then obtain r where r: "r \<in> set df" "k = dedupe_key r" by blast
  show "k \<in> dedupe_key ` set (dedupe df)"
  proof (cases "event_id r")
    case None
    then have na: "isna (event_id r)" by (simp add: isna_def)
    have "(\<lambda>r. (date r, title_norm r)) ` set (df_no_id (sort_values df))
        = (\<lambda>r. (date r, title_norm r)) ` set (filter (\<lambda>r. isna (event_id r)) (sort_values df))"
      unfolding df_no_id_def by (rule drop_duplicates_keys)
    moreover have "(date r, title_norm r) \<in> (\<lambda>r. (date r, title_norm r)) ` set (filter (\<lambda>r. isna (event_id r)) (sort_values df))"
      using r(1) na by force
    ultimately obtain r' where r': "r' \<in> set (df_no_id (sort_values df))" "(date r', title_norm r') = (date r, title_norm r)"
      by (metis (no_types, lifting) imageE)
    from r'(1) have "isna (event_id r')" using df_no_id_set [of df] by auto
    with r'(2) na r(2) have "dedupe_key r' = k" by (simp add: dedupe_key_no_id)
    moreover from r'(1) have "r' \<in> set (dedupe df)" by (simp add: dedupe_passes)
    ultimately show ?thesis by blast
  next
    case (Some e)
    then have na: "notna (event_id r)" by (simp add: notna_def)
    have "(\<lambda>r. (date r, event_id r)) ` set (df_with_id (sort_values df))
        = (\<lambda>r. (date r, event_id r)) ` set (filter (\<lambda>r. notna (event_id r)) (sort_values df))"
      unfolding df_with_id_def by (rule drop_duplicates_keys)
    moreover have "(date r, event_id r) \<in> (\<lambda>r. (date r, event_id r)) ` set (filter (\<lambda>r. notna (event_id r)) (sort_values df))"
      using r(1) na by force
    ultimately obtain r' where r': "r' \<in> set (df_with_id (sort_values df))" "(date r', event_id r') = (date r, event_id r)"
      by (metis (no_types, lifting) imageE)
    with r(2) Some have "dedupe_key r' = k" by (simp add: dedupe_key_def)
    moreover from r'(1) have "r' \<in> set (dedupe df)" by (simp add: dedupe_passes)
    ultimately show ?thesis by blast
  qed
qed

lemma dedupe_single:
  assumes "r \<in> set df"
  shows "\<exists>k. filter (\<lambda>x. dedupe_key x = dedupe_key r) (dedupe df) = [k]"
proof -
  from assms have "dedupe_key r \<in> dedupe_key ` set (dedupe df)" by (simp add: dedupe_keys)
  then obtain k where k: "k \<in> set (dedupe df)" "dedupe_key k = dedupe_key r" by auto
  from distinct_key_filter_single [OF dedupe_distinct k(1)] k(2)
  show ?thesis by auto
qed

lemma rebuild_Inr:
  assumes "rebuild_events_safe md dd = Inr final"
  shows "final = reconcile (parse_manifest md ''month_block'') (parse_manifest dd ''day_block'')"
  using assms by (auto simp: rebuild_events_safe_def split: list.splits)

lemma reconcile_subset: "set (reconcile M D) \<subseteq> set (candidates M D)"
  by (simp add: reconcile_def set_dedupe)

lemma day_row_gated:
  assumes run: "rebuild_events_safe month_items day_items = Inr final"
    and m: "m \<in> set (parse_manifest month_items ''month_block'')" "calendar_name m = Some ''BilalEvents''"
    and r: "r \<in> set final" "source_type r = ''day_block''"
  shows "year_month r \<noteq> year_month m"
proof -
  let ?M = "parse_manifest month_items ''month_block''"
  let ?D = "parse_manifest day_items ''day_block''"
  from run have "final = reconcile ?M ?D" by (rule rebuild_Inr)
  with r(1) have "r \<in> set (candidates ?M ?D)" using reconcile_subset by blast
  moreover have "r \<notin> set ?M"
  proof
    assume "r \<in> set ?M"
    then have "source_type r = ''month_block''" by (simp add: parse_manifest_fields)
    with r(2) show False by simp
  qed
  ultimately have "year_month r \<notin> year_month ` {m \<in> set ?M. is_bilal m}"
    by (auto simp: candidates_cases)
  moreover from m have "year_month m \<in> year_month ` {m \<in> set ?M. is_bilal m}"
    by (auto simp: is_bilal_def)
  ultimately show ?thesis by auto
qed

lemma sorted_sort_values: "sorted (map sort_values_key (sort_values df))"
  by (simp add: sort_values_def)

lemma df_with_id_first:
  assumes "sorted (map f df)" and k: "k \<in> set (df_with_id df)"
    and m: "m \<in> set df" "notna (event_id m)" "date m = date k" "event_id m = event_id k"
  shows "f k \<le> f m"
proof -
  let ?key = "\<lambda>r. (date r, event_id r)"
  let ?xs = "filter (\<lambda>r. notna (event_id r)) df"
  have "distinct (map ?key (df_with_id df))"
    unfolding df_with_id_def by (rule drop_duplicates_distinct)
  from find_distinct_key [OF this k]
  have "find (\<lambda>y. ?key y = ?key k) (df_with_id df) = Some k" .
  then have f: "find (\<lambda>y. ?key y = ?key k) ?xs = Some k"
    unfolding df_with_id_def drop_duplicates_find .
  have s: "sorted (map f ?xs)" using assms(1) by (simp add: sorted_filter)
  from m have "m \<in> set ?xs" "?key m = ?key k" by auto
  with find_sorted_least [OF s f] show ?thesis by blast
qed

lemma df_no_id_first:
  assumes "sorted (map f df)" and k: "k \<in> set (df_no_id df)"
    and m: "m \<in> set df" "isna (event_id m)" "date m = date k" "title_norm m = title_norm k"
  shows "f k \<le> f m"
proof -
  let ?key = "\<lambda>r. (date r, title_norm r)"
  let ?xs = "filter (\<lambda>r. isna (event_id r)) df"
  have "distinct (map ?key (df_no_id df))"
    unfolding df_no_id_def by (rule drop_duplicates_distinct)
  from find_distinct_key [OF this k]
  have "find (\<lambda>y. ?key y = ?key k) (df_no_id df) = Some k" .
  then have f: "find (\<lambda>y. ?key y = ?key k) ?xs = Some k"
    unfolding df_no_id_def drop_duplicates_find .
  have s: "sorted (map f ?xs)" using assms(1) by (simp add: sorted_filter)
  from m have "m \<in> set ?xs" "?key m = ?key k" by auto
  with find_sorted_least [OF s f] show ?thesis by blast
qed

lemma dedupe_rank_least:
  assumes k: "k \<in> set (dedupe df)" and m: "m \<in> set df" "dedupe_key m = dedupe_key k"
  shows "sort_values_key k \<le> sort_values_key m"
proof (cases "event_id k")
  case None
  then have nk: "isna (event_id k)" by (simp add: isna_def)
  with k have "k \<in> set (df_no_id (sort_values df))"
    using df_with_id_set [of df] by (auto simp: dedupe_passes isna_def notna_def)
  moreover from m(2) None have "isna (event_id m)" "date m = date k" "title_norm m = title_norm k"
    by (auto simp: dedupe_key_def isna_def split: option.splits)
  ultimately show ?thesis
    using df_no_id_first [OF sorted_sort_values, of k df m] m(1) by simp
next
  case (Some e)
  then have nk: "notna (event_id k)" by (simp add: notna_def)
  with k have "k \<in> set (df_with_id (sort_values df))"
    using df_no_id_set [of df] by (auto simp: dedupe_passes isna_def notna_def)
  moreover from m(2) Some have "notna (event_id m)" "date m = date k" "event_id m = event_id k"
    by (auto simp: dedupe_key_def notna_def split: option.splits)
  ultimately show ?thesis
    using df_with_id_first [OF sorted_sort_values, of k df m] m(1) by simp
qed

subsection \<open>Analytics\<close>

lemma prepare_length: "length (prepare df) \<le> length df"
  by (simp add: prepare_def map_filter_def)

lemma venue_bookings_length: "length (venue_bookings df) \<le> length df"
proof -
  have "length (venue_bookings df) \<le> length (filter (\<lambda>r. location_code_a r \<noteq> []) (prepare df))"
    unfolding venue_bookings_def by (rule drop_duplicates_length)
  also have "\<dots> \<le> length (prepare df)" by (rule length_filter_le)
  also have "\<dots> \<le> length df" by (rule prepare_length)
  finally show ?thesis .
qed

subsection \<open>Rows and the blocks they come from\<close>

lemma extract_events_append:
  "extract_events (xs @ ys) cal src = extract_events xs cal src @ extract_events ys cal src"
  by (induction xs) (simp_all add: Let_def)

lemma extract_events_origin:
  "r \<in> set (extract_events evs cal src) \<Longrightarrow>
     \<exists>ev\<in>set evs. block_date ev = Some (date r) \<and> date r \<noteq> []"
  by (induction evs) (auto simp: Let_def truthy_def split: if_splits option.splits)

lemma parse_manifest_origin:
  "r \<in> set (parse_manifest items src) \<Longrightarrow>
     \<exists>it\<in>set items. \<exists>ev\<in>set (event_blocks it). block_date ev = Some (date r) \<and> date r \<noteq> []"
  by (induction items) (auto dest: extract_events_origin)

lemma candidates_subset: "set (candidates M D) \<subseteq> set M \<union> set D"
  by (auto simp: candidates_cases)

lemma extract_all_events_Inr:
  assumes "extract_all_events month_items day_items = Inr out"
  shows "out = drop_duplicates (\<lambda>r. (date_all r, title_norm_all r, location_code_all r))
     (filter (\<lambda>r. notna (date_all r))
        (process_manifest month_items ''month_block'' @ process_manifest day_items ''day_block''))"
proof -
  define al where "al = process_manifest month_items ''month_block'' @ process_manifest day_items ''day_block''"
  have "extract_all_events month_items day_items =
     (case al of [] \<Rightarrow> Inl (KeyError ''date'')
      | _ # _ \<Rightarrow> Inr (drop_duplicates (\<lambda>r. (date_all r, title_norm_all r, location_code_all r))
                    (filter (\<lambda>r. notna (date_all r)) al)))"
    unfolding extract_all_events_def Let_def al_def ..
  with assms show ?thesis unfolding al_def [symmetric] by (cases al) simp_all
qed

lemma extract_events_drop:
  assumes "\<not> truthy (block_date ev)"
  shows "extract_events (pre @ ev # post) cal src
        = extract_events pre cal src @ extract_events post cal src"
proof -
  from assms have "extract_events [ev] cal src = []" by (simp add: Let_def)
  then show ?thesis
    using extract_events_append [of pre "[ev] @ post" cal src]
      extract_events_append [of "[ev]" post cal src] by simp
qed

lemma rebuild_rows_origin:
  assumes run: "rebuild_events_safe month_items day_items = Inr final" and r: "r \<in> set final"
  shows "\<exists>it\<in>set (month_items @ day_items). \<exists>b\<in>set (event_blocks it).
          block_date b = Some (date r) \<and> date r \<noteq> []"
proof -
  let ?M = "parse_manifest month_items ''month_block''"
  let ?D = "parse_manifest day_items ''day_block''"
  from run have "final = reconcile ?M ?D" by (rule rebuild_Inr)
  with r have "r \<in> set ?M \<or> r \<in> set ?D" using reconcile_subset candidates_subset by blast
  then show ?thesis
  proof
    assume "r \<in> set ?M"
    from parse_manifest_origin [OF this] show ?thesis by auto
  next
    assume "r \<in> set ?D"
    from parse_manifest_origin [OF this] show ?thesis by auto
  qed
qed

lemma extract_all_dated:
  assumes "extract_all_events month_items day_items = Inr out" and "r \<in> set out"
  shows "date_all r \<noteq> None"
proof -
  let ?all = "process_manifest month_items ''month_block'' @ process_manifest day_items ''day_block''"
  have "set out \<subseteq> {x \<in> set ?all. notna (date_all x)}"
    by (subst extract_all_events_Inr [OF assms(1)]) (rule dd_filter_set)
  with assms(2) have "notna (date_all r)" by blast
  then show ?thesis by (simp add: notna_def)
qed

subsection \<open>Partitioning\<close>

lemma bucket_of_append_to:
  "bucket_of (append_to b it s) b' = (if b' = b then bucket_of s b' @ [it] else bucket_of s b')"
  by (cases b; cases b') (simp_all add: bucket_of_def append_to_def)

lemma partition_loop_bucket:
  "bucket_of (partition_loop get_qs fs data s) b =
     bucket_of s b @ filter (\<lambda>it. route get_qs fs it = Some b) data"
proof (induction data arbitrary: s)
  case Nil
  then show ?case by simp
next
  case (Cons it data)
  show ?case
  proof (cases "route get_qs fs it")
    case None
    then show ?thesis by (simp add: Cons)
  next
    case (Some b')
    then show ?thesis by (simp add: Cons bucket_of_append_to)
  qed
qed

lemma written_bucket:
  "bucket_of (written (make_verified_manifests get_qs fs data)) b =
     filter (\<lambda>it. route get_qs fs it = Some b) data"
  by (simp add: make_verified_manifests_def Let_def partition_loop_bucket) (simp add: bucket_of_def split: bucket.splits)

lemma route_None: "route get_qs fs it = None \<longleftrightarrow> skipped fs it"
  by (auto simp: route_def skipped_def Let_def split: option.splits)

lemma route_Month:
  "route get_qs fs it = Some Month_block \<longleftrightarrow>
     (\<exists>p html. path it = Some p \<and> p \<noteq> [] \<and> fs p = Some html \<and> classify_html html = T_month_block \<and>
        (url_op get_qs it = ''ShowIt'' \<or> url_op get_qs it = ''ShowMonth''))"
  by (auto simp: route_def url_op_def Let_def split: option.splits)

lemma route_Day:
  "route get_qs fs it = Some Day_block \<Longrightarrow>
     (\<exists>p html. path it = Some p \<and> fs p = Some html \<and> url_op get_qs it = ''ShowDay'' \<and> has_CalEvent False html)"
  by (auto simp: route_def url_op_def Let_def split: option.splits if_splits)

lemma classify_empty: "classify_html [] = T_other"
  by (simp add: classify_html_def lower_def)

lemma route_empty_file:
  "path it = Some p \<Longrightarrow> p \<noteq> [] \<Longrightarrow> fs p = Some [] \<Longrightarrow> route get_qs fs it = Some Other"
  by (simp add: route_def Let_def classify_empty)

lemma printed_counts:
  "printed (make_verified_manifests get_qs fs data) =
     [(''month_block:'', length (bucket_of (written (make_verified_manifests get_qs fs data)) Month_block)),
      (''event_popup:'', length (bucket_of (written (make_verified_manifests get_qs fs data)) Event_popup)),
      (''day_block:'', length (bucket_of (written (make_verified_manifests get_qs fs data)) Day_block)),
      (''other:'', length (bucket_of (written (make_verified_manifests get_qs fs data)) Other))]"
  by (simp add: make_verified_manifests_def Let_def bucket_of_def)

lemma count_by_route:
  "(\<Sum>b\<leftarrow>[Month_block, Event_popup, Day_block, Other]. length (filter (\<lambda>it. route get_qs fs it = Some b) data))
     = length (filter (\<lambda>it. \<not> skipped fs it) data)"
proof (induction data)
  case Nil
  then show ?case by simp
next
  case (Cons it data)
  show ?case
  proof (cases "route get_qs fs it")
    case None
    then have "skipped fs it" by (simp add: route_None)
    with None Cons show ?thesis by simp
  next
    case (Some b)
    then have "\<not> skipped fs it" using route_None [of get_qs fs it] by simp
    with Some Cons show ?thesis by (cases b) simp_all
  qed
qed

subsection \<open>Growth\<close>










subsection \<open>Dates\<close>

lemma parse_date_str_general:
  assumes "3 \<le> length (split_on CHR ''/'' d)"
    and "py_int (split_on CHR ''/'' d ! 0) = Some y"
    and "py_int (split_on CHR ''/'' d ! 1) = Some m"
    and "py_int (split_on CHR ''/'' d ! 2) = Some dd"
  shows "parse_date_str d = Some (format_0d 4 y @ ''-'' @ format_0d 2 m @ ''-'' @ format_0d 2 dd)"
  using assms by (simp add: parse_date_str_def Let_def)

subsection \<open>Rank order and the rows that are kept\<close>

lemma ball_neq_notin_image: "\<forall>b\<in>A. f b \<noteq> v \<Longrightarrow> v \<notin> f ` A"
  by auto

lemma sort_rank_order:
  assumes "date a = date b" "title_norm a = title_norm b"
  shows "source_rank a < source_rank b \<Longrightarrow> sort_values_key a < sort_values_key b"
    and "source_rank a = source_rank b \<Longrightarrow> event_id a \<noteq> None \<Longrightarrow> event_id b = None \<Longrightarrow>
           sort_values_key a < sort_values_key b"
    and "source_rank a = source_rank b \<Longrightarrow> has_event_id a = has_event_id b \<Longrightarrow>
           location_code a \<noteq> None \<Longrightarrow> location_code b = None \<Longrightarrow>
           sort_values_key a < sort_values_key b"
  using assms
  by (simp_all add: sort_values_key_def has_event_id_def has_location_def notna_def)

lemma no_id_kept_row:
  assumes "r1 \<in> set (candidates M D)" "r2 \<in> set (candidates M D)"
    and "event_id r1 = None" "event_id r2 = None"
    and "date r1 = date r2" "title_norm r1 = title_norm r2"
  shows "\<exists>k. filter (\<lambda>r. event_id r = None \<and> date r = date r1 \<and> title_norm r = title_norm r1)
               (reconcile M D) = [k] \<and>
             k \<in> set (candidates M D) \<and>
             sort_values_key k \<le> sort_values_key r1 \<and> sort_values_key k \<le> sort_values_key r2 \<and>
             length (venue_bookings (to_csv_read_csv [k])) \<le> 1"
proof -
  obtain k where k: "filter (\<lambda>x. dedupe_key x = dedupe_key r1) (reconcile M D) = [k]"
    using dedupe_single [OF assms(1)] by (auto simp: reconcile_def)
  have eq: "(\<lambda>x. dedupe_key x = dedupe_key r1)
          = (\<lambda>r. event_id r = None \<and> date r = date r1 \<and> title_norm r = title_norm r1)"
    using assms(3) by (auto simp: dedupe_key_def fun_eq_iff split: option.splits)
  have "k \<in> set (filter (\<lambda>x. dedupe_key x = dedupe_key r1) (reconcile M D))" by (simp add: k)
  then have kf: "k \<in> set (dedupe (candidates M D))" and kk: "dedupe_key r1 = dedupe_key k"
    by (simp_all add: reconcile_def)
  have k2: "dedupe_key r2 = dedupe_key k"
    using kk assms(3-6) by (simp add: dedupe_key_def)
  have "k \<in> set (candidates M D)" using kf set_dedupe by blast
  moreover have "sort_values_key k \<le> sort_values_key r1"
    using dedupe_rank_least [OF kf assms(1) kk] .
  moreover have "sort_values_key k \<le> sort_values_key r2"
    using dedupe_rank_least [OF kf assms(2) k2] .
  moreover have "length (venue_bookings (to_csv_read_csv [k])) \<le> 1"
    using venue_bookings_length [of "to_csv_read_csv [k]"] by (simp add: to_csv_read_csv_def)
  ultimately show ?thesis using k eq by auto
qed

lemma month_block_kept:
  assumes run: "rebuild_events_safe month_items day_items = Inr final"
    and m: "m \<in> set (parse_manifest month_items ''month_block'')"
      "calendar_name m = Some ''BilalEvents''" "event_id m = Some e"
    and d: "d \<in> set (parse_manifest day_items ''day_block'')" "date d = date m"
  shows "d \<notin> set final \<and>
    (\<exists>k. filter (\<lambda>r. date r = date m \<and> event_id r = Some e) final = [k] \<and>
         source_type k = ''month_block'' \<and> sort_values_key k \<le> sort_values_key m)"
proof -
  let ?M = "parse_manifest month_items ''month_block''"
  let ?D = "parse_manifest day_items ''day_block''"
  have fin: "final = reconcile ?M ?D" using run by (rule rebuild_Inr)
  have ym: "year_month x = take 7 (date x)" if "x \<in> set ?M \<or> x \<in> set ?D" for x
    using that parse_manifest_fields by blast
  have "d \<notin> set final"
  proof
    assume "d \<in> set final"
    moreover from d(1) have "source_type d = ''day_block''" by (simp add: parse_manifest_fields)
    ultimately have "year_month d \<noteq> year_month m"
      using day_row_gated [OF run m(1,2)] by blast
    with ym [of d] ym [of m] d m(1) show False by simp
  qed
  moreover
  from m have mc: "m \<in> set (candidates ?M ?D)" by (simp add: candidates_cases is_bilal_def)
  then obtain k where k: "filter (\<lambda>x. dedupe_key x = dedupe_key m) final = [k]"
    using dedupe_single [of m "candidates ?M ?D"] by (auto simp: fin reconcile_def)
  have eq: "(\<lambda>x. dedupe_key x = dedupe_key m) = (\<lambda>r. date r = date m \<and> event_id r = Some e)"
    using m(3) by (auto simp: dedupe_key_def fun_eq_iff split: option.splits)
  have "k \<in> set (filter (\<lambda>x. dedupe_key x = dedupe_key m) final)" by (simp add: k)
  then have kf: "k \<in> set final" and kk: "dedupe_key k = dedupe_key m" by simp_all
  from kk have kd: "date k = date m" using m(3) by (auto simp: dedupe_key_def split: option.splits)
  have "source_type k = ''month_block''"
  proof (rule ccontr)
    assume ns: "source_type k \<noteq> ''month_block''"
    from kf have kc: "k \<in> set (candidates ?M ?D)" using reconcile_subset fin by blast
    with ns have "k \<in> set ?D" and nm: "year_month k \<notin> year_month ` {m \<in> set ?M. is_bilal m}"
      using parse_manifest_fields [of k month_items "''month_block''"] by (auto simp: candidates_cases)
    then have "year_month k = year_month m" using ym [of k] ym [of m] kd m(1) by simp
    with nm m(1,2) show False by (auto simp: is_bilal_def)
  qed
  moreover have "sort_values_key k \<le> sort_values_key m"
    using dedupe_rank_least [of k "candidates ?M ?D" m] kf mc kk by (simp add: fin reconcile_def)
  ultimately show ?thesis using k eq by auto
qed

section \<open>The claims\<close>

subsection \<open>Reconciliation\<close>

text \<open>
  Claim C1, as amended. Two candidate records without event_id that share date and
  normalized title and carry different non-empty location codes collapse to exactly one
  row of the canonical table. That row is one of the candidate records and ranks at or
  before both in the sort order. The venue bookings are derived from the canonical table
  alone, so this row yields at most one venue booking: the location codes of the
  records that were dropped are not carried over.
\<close>

theorem no_id_records_collapse:
  assumes "r1 \<in> set (candidates M D)" "r2 \<in> set (candidates M D)"
    and "event_id r1 = None" "event_id r2 = None"
    and "date r1 = date r2" "title_norm r1 = title_norm r2"
    and "truthy (location_code r1)" "truthy (location_code r2)"
    and "location_code r1 \<noteq> location_code r2"
  shows "\<exists>k. filter (\<lambda>r. event_id r = None \<and> date r = date r1 \<and> title_norm r = title_norm r1)
               (reconcile M D) = [k] \<and>
             k \<in> set (candidates M D) \<and>
             sort_values_key k \<le> sort_values_key r1 \<and> sort_values_key k \<le> sort_values_key r2 \<and>
             length (venue_bookings (to_csv_read_csv [k])) \<le> 1"
  using assms(1-6) by (rule no_id_kept_row)

theorem no_id_records_collapse_witness:
  "dinner_row ''Hall'' \<in> set (candidates dinner_rows []) \<and>
   dinner_row ''Gym'' \<in> set (candidates dinner_rows []) \<and>
   event_id (dinner_row ''Hall'') = None \<and> event_id (dinner_row ''Gym'') = None \<and>
   date (dinner_row ''Hall'') = date (dinner_row ''Gym'') \<and>
   title_norm (dinner_row ''Hall'') = title_norm (dinner_row ''Gym'') \<and>
   truthy (location_code (dinner_row ''Hall'')) \<and> truthy (location_code (dinner_row ''Gym'')) \<and>
   location_code (dinner_row ''Hall'') \<noteq> location_code (dinner_row ''Gym'') \<and>
   (\<exists>k. filter (\<lambda>r. event_id r = None \<and> date r = date (dinner_row ''Hall'') \<and>
                     title_norm r = title_norm (dinner_row ''Hall''))
            (reconcile dinner_rows []) = [k] \<and>
        k \<in> set (candidates dinner_rows []) \<and>
        sort_values_key k \<le> sort_values_key (dinner_row ''Hall'') \<and>
        sort_values_key k \<le> sort_values_key (dinner_row ''Gym'') \<and>
        length (venue_bookings (to_csv_read_csv [k])) \<le> 1)"
proof -
  have h1: "dinner_row ''Hall'' \<in> set (candidates dinner_rows [])" by code_simp
  have h2: "dinner_row ''Gym'' \<in> set (candidates dinner_rows [])" by code_simp
  have h3: "event_id (dinner_row ''Hall'') = None" by (simp add: dinner_row_def)
  have h4: "event_id (dinner_row ''Gym'') = None" by (simp add: dinner_row_def)
  have h5: "date (dinner_row ''Hall'') = date (dinner_row ''Gym'')" by (simp add: dinner_row_def)
  have h6: "title_norm (dinner_row ''Hall'') = title_norm (dinner_row ''Gym'')"
    by (simp add: dinner_row_def)
  have h7: "truthy (location_code (dinner_row ''Hall''))" by (simp add: dinner_row_def truthy_def)
  have h8: "truthy (location_code (dinner_row ''Gym''))" by (simp add: dinner_row_def truthy_def)
  have h9: "location_code (dinner_row ''Hall'') \<noteq> location_code (dinner_row ''Gym'')"
    by (simp add: dinner_row_def)
  show ?thesis
    by (intro conjI h1 h2 h3 h4 h5 h6 h7 h8 h9
          no_id_records_collapse [OF h1 h2 h3 h4 h5 h6 h7 h8 h9])
qed

text \<open>
  The claim as stated fails: the two dinner records (no event_id, same date and title,
  venues Hall and Gym) become one canonical row, and the analytics stage derives one
  venue booking from it, not two.
\<close>

theorem one_booking_after_collapse:
  "map event_id dinner_rows = [None, None] \<and>
   map date dinner_rows = [''2021-05-22'', ''2021-05-22''] \<and>
   map title_norm dinner_rows = [''community dinner'', ''community dinner''] \<and>
   map location_code dinner_rows = [Some ''Hall'', Some ''Gym''] \<and>
   reconcile dinner_rows [] = [dinner_row ''Hall''] \<and>
   map booking (venue_bookings (to_csv_read_csv (reconcile dinner_rows [])))
     = [(''2021-05-22||community dinner||6:00 pm'', ''Hall'')]"
  by code_simp

text \<open>
  Claim C2. Coverage gate: when the month_block manifest yields a record of the
  organisation's calendar for a (year, month), given as \<open>year_month\<close>, no record from
  the day_block manifest with that \<open>year_month\<close> is in the canonical table. So a
  day_block record is in the table only if its \<open>year_month\<close> occurs in no month_block
  record.
\<close>

theorem coverage_gate:
  assumes "rebuild_events_safe month_items day_items = Inr final"
    and "m \<in> set (parse_manifest month_items ''month_block'')"
    and "calendar_name m = Some ''BilalEvents''"
    and "r \<in> set final" and "source_type r = ''day_block''"
  shows "year_month r \<noteq> year_month m"
  using assms by (rule day_row_gated)

theorem coverage_gate_witness:
  "rebuild_events_safe sample_month_items sample_day_items = Inr [friday_plain_row, june_row] \<and>
   friday_plain_row \<in> set (parse_manifest sample_month_items ''month_block'') \<and>
   calendar_name friday_plain_row = Some ''BilalEvents'' \<and>
   june_row \<in> set [friday_plain_row, june_row] \<and>
   source_type june_row = ''day_block'' \<and>
   friday_day_row \<in> set (parse_manifest sample_day_items ''day_block'') \<and>
   friday_day_row \<notin> set [friday_plain_row, june_row] \<and>
   year_month june_row \<noteq> year_month friday_plain_row"
proof -
  have h1: "rebuild_events_safe sample_month_items sample_day_items
              = Inr [friday_plain_row, june_row]" by code_simp
  have h2: "friday_plain_row \<in> set (parse_manifest sample_month_items ''month_block'')"
    by code_simp
  have h3: "calendar_name friday_plain_row = Some ''BilalEvents''" by code_simp
  have h4: "june_row \<in> set [friday_plain_row, june_row]" by simp
  have h5: "source_type june_row = ''day_block''" by (simp add: june_row_def)
  have h6: "friday_day_row \<in> set (parse_manifest sample_day_items ''day_block'')" by code_simp
  have h7: "friday_day_row \<notin> set [friday_plain_row, june_row]" by code_simp
  show ?thesis
    by (intro conjI h1 h2 h3 h4 h5 h6 h7 coverage_gate [OF h1 h2 h3 h4 h5])
qed

text \<open>
  Claim C3. Take a record of the organisation's calendar from the month_block manifest
  that has an event_id and no location code, and a record from the day_block manifest
  with the same date and event_id that has a location code. Then the day_block record is
  not in the canonical table (it shares its month with a month_block record, so it is
  not even a candidate); the table has exactly one row for that (date, event_id), it
  comes from month_block, and it ranks at or before the month_block record. Among
  records of equal date and normalized title the sort rank puts the source first
  (month_block before day_block), then the presence of an event_id, then the presence
  of a location code.
\<close>

theorem month_block_wins:
  assumes "rebuild_events_safe month_items day_items = Inr final"
    and "m \<in> set (parse_manifest month_items ''month_block'')"
    and "calendar_name m = Some ''BilalEvents''"
    and "location_code m = None" and "event_id m = Some e"
    and "d \<in> set (parse_manifest day_items ''day_block'')"
    and "calendar_name d = Some ''BilalEvents''"
    and "location_code d \<noteq> None" and "event_id d = Some e" and "date d = date m"
  shows "d \<notin> set final \<and>
    (\<exists>k. filter (\<lambda>r. date r = date m \<and> event_id r = Some e) final = [k] \<and>
         source_type k = ''month_block'' \<and> sort_values_key k \<le> sort_values_key m) \<and>
    (\<forall>a b. date a = date b \<and> title_norm a = title_norm b \<and> source_rank a < source_rank b
        \<longrightarrow> sort_values_key a < sort_values_key b) \<and>
    (\<forall>a b. date a = date b \<and> title_norm a = title_norm b \<and> source_rank a = source_rank b \<and>
           event_id a \<noteq> None \<and> event_id b = None
        \<longrightarrow> sort_values_key a < sort_values_key b) \<and>
    (\<forall>a b. date a = date b \<and> title_norm a = title_norm b \<and> source_rank a = source_rank b \<and>
           has_event_id a = has_event_id b \<and> location_code a \<noteq> None \<and> location_code b = None
        \<longrightarrow> sort_values_key a < sort_values_key b)"
proof -
  have kept: "d \<notin> set final \<and>
    (\<exists>k. filter (\<lambda>r. date r = date m \<and> event_id r = Some e) final = [k] \<and>
         source_type k = ''month_block'' \<and> sort_values_key k \<le> sort_values_key m)"
    using assms(1,2,3,5,6,10) by (rule month_block_kept)
  have r1: "\<forall>a b. date a = date b \<and> title_norm a = title_norm b \<and> source_rank a < source_rank b
        \<longrightarrow> sort_values_key a < sort_values_key b"
    using sort_rank_order(1) by blast
  have r2: "\<forall>a b. date a = date b \<and> title_norm a = title_norm b \<and> source_rank a = source_rank b \<and>
           event_id a \<noteq> None \<and> event_id b = None
        \<longrightarrow> sort_values_key a < sort_values_key b"
    using sort_rank_order(2) by blast
  have r3: "\<forall>a b. date a = date b \<and> title_norm a = title_norm b \<and> source_rank a = source_rank b \<and>
           has_event_id a = has_event_id b \<and> location_code a \<noteq> None \<and> location_code b = None
        \<longrightarrow> sort_values_key a < sort_values_key b"
    using sort_rank_order(3) by blast
  show ?thesis using kept r1 r2 r3 by blast
qed

theorem month_block_wins_witness:
  "rebuild_events_safe sample_month_items sample_day_items = Inr [friday_plain_row, june_row] \<and>
   friday_plain_row \<in> set (parse_manifest sample_month_items ''month_block'') \<and>
   calendar_name friday_plain_row = Some ''BilalEvents'' \<and>
   location_code friday_plain_row = None \<and> event_id friday_plain_row = Some ''899'' \<and>
   friday_day_row \<in> set (parse_manifest sample_day_items ''day_block'') \<and>
   calendar_name friday_day_row = Some ''BilalEvents'' \<and>
   location_code friday_day_row \<noteq> None \<and> event_id friday_day_row = Some ''899'' \<and>
   date friday_day_row = date friday_plain_row \<and>
   friday_day_row \<notin> set [friday_plain_row, june_row] \<and>
   (\<exists>k. filter (\<lambda>r. date r = date friday_plain_row \<and> event_id r = Some ''899'')
            [friday_plain_row, june_row] = [k] \<and>
        source_type k = ''month_block'' \<and> sort_values_key k \<le> sort_values_key friday_plain_row) \<and>
   source_rank friday_plain_row < source_rank friday_day_row \<and>
   sort_values_key friday_plain_row < sort_values_key friday_day_row"
proof -
  have h1: "rebuild_events_safe sample_month_items sample_day_items
              = Inr [friday_plain_row, june_row]" by code_simp
  have h2: "friday_plain_row \<in> set (parse_manifest sample_month_items ''month_block'')"
    by code_simp
  have h3: "calendar_name friday_plain_row = Some ''BilalEvents''" by code_simp
  have h4: "location_code friday_plain_row = None" by code_simp
  have h5: "event_id friday_plain_row = Some ''899''" by code_simp
  have h6: "friday_day_row \<in> set (parse_manifest sample_day_items ''day_block'')" by code_simp
  have h7: "calendar_name friday_day_row = Some ''BilalEvents''" by code_simp
  have h8: "location_code friday_day_row \<noteq> None" by code_simp
  have h9: "event_id friday_day_row = Some ''899''" by code_simp
  have h10: "date friday_day_row = date friday_plain_row" by code_simp
  have h11: "title_norm friday_plain_row = title_norm friday_day_row" by code_simp
  have h12: "source_rank friday_plain_row < source_rank friday_day_row" by code_simp
  note w = month_block_wins [OF h1 h2 h3 h4 h5 h6 h7 h8 h9 h10]
  from w have c1: "friday_day_row \<notin> set [friday_plain_row, june_row]" by (rule conjunct1)
  from w have c2: "\<exists>k. filter (\<lambda>r. date r = date friday_plain_row \<and> event_id r = Some ''899'')
            [friday_plain_row, june_row] = [k] \<and>
        source_type k = ''month_block'' \<and> sort_values_key k \<le> sort_values_key friday_plain_row"
    by (rule conjunct1 [OF conjunct2])
  from w have "\<forall>a b. date a = date b \<and> title_norm a = title_norm b \<and> source_rank a < source_rank b
        \<longrightarrow> sort_values_key a < sort_values_key b"
    by (rule conjunct1 [OF conjunct2 [OF conjunct2]])
  with h10 h11 h12 have c3: "sort_values_key friday_plain_row < sort_values_key friday_day_row"
    by (metis (no_types))
  show ?thesis by (intro conjI h1 h2 h3 h4 h5 h6 h7 h8 h9 h10 h12 c1 c2 c3)
qed

subsection \<open>Identities\<close>

text \<open>
  Claim C4. In the analytics output no two rows of \<open>events_unique\<close> share an event_key,
  no two venue bookings share the pair (event_key, location_code), and no venue booking
  has an empty location_code. In the canonical table written by the reconciliation no
  two rows share the key they were deduplicated on.
\<close>

theorem unique_identities:
  "distinct (map event_key (events_unique df)) \<and>
   distinct (map booking (venue_bookings df)) \<and>
   (\<forall>b\<in>set (venue_bookings df). location_code_a b \<noteq> []) \<and>
   distinct (map dedupe_key (reconcile df_month df_day))"
proof -
  have "distinct (map event_key (events_unique df))"
    unfolding events_unique_def by (rule drop_duplicates_distinct)
  moreover have "distinct (map booking (venue_bookings df))"
  proof -
    have "booking = (\<lambda>r. (event_key r, location_code_a r))" by (simp add: booking_def fun_eq_iff)
    then show ?thesis unfolding venue_bookings_def by (simp only: drop_duplicates_distinct)
  qed
  moreover have "\<forall>b\<in>set (venue_bookings df). location_code_a b \<noteq> []"
    unfolding venue_bookings_def using dd_filter_set [of _ "\<lambda>r. location_code_a r \<noteq> []" "prepare df"]
    by blast
  moreover have "distinct (map dedupe_key (reconcile df_month df_day))"
    by (simp add: reconcile_def dedupe_distinct)
  ultimately show ?thesis by blast
qed

theorem unique_identities_witness:
  "map booking (venue_bookings (to_csv_read_csv (dinner_rows @ [friday_row])))
     = [(''2021-05-22||community dinner||6:00 pm'', ''Hall''),
        (''2021-05-22||community dinner||6:00 pm'', ''Gym''),
        (''2021-05-21||friday prayer||1:00 pm'', ''Masjid'')] \<and>
   distinct (map event_key (events_unique (to_csv_read_csv (dinner_rows @ [friday_row])))) \<and>
   distinct (map booking (venue_bookings (to_csv_read_csv (dinner_rows @ [friday_row])))) \<and>
   [] \<notin> location_code_a ` set (venue_bookings (to_csv_read_csv (dinner_rows @ [friday_row]))) \<and>
   distinct (map dedupe_key (reconcile dinner_rows [friday_day_row, june_row]))"
proof -
  have h: "map booking (venue_bookings (to_csv_read_csv (dinner_rows @ [friday_row])))
     = [(''2021-05-22||community dinner||6:00 pm'', ''Hall''),
        (''2021-05-22||community dinner||6:00 pm'', ''Gym''),
        (''2021-05-21||friday prayer||1:00 pm'', ''Masjid'')]"
    by code_simp
  note w = unique_identities [of "to_csv_read_csv (dinner_rows @ [friday_row])"
        dinner_rows "[friday_day_row, june_row]"]
  from w have c1: "distinct (map event_key
      (events_unique (to_csv_read_csv (dinner_rows @ [friday_row]))))"
    by (rule conjunct1)
  from w have c2: "distinct (map booking
      (venue_bookings (to_csv_read_csv (dinner_rows @ [friday_row]))))"
    by (rule conjunct1 [OF conjunct2])
  from w have "\<forall>b\<in>set (venue_bookings (to_csv_read_csv (dinner_rows @ [friday_row]))).
      location_code_a b \<noteq> []"
    by (rule conjunct1 [OF conjunct2 [OF conjunct2]])
  then have c3: "[] \<notin> location_code_a `
      set (venue_bookings (to_csv_read_csv (dinner_rows @ [friday_row])))"
    by (rule ball_neq_notin_image)
  from w have c4: "distinct (map dedupe_key (reconcile dinner_rows [friday_day_row, june_row]))"
    by (rule conjunct2 [OF conjunct2 [OF conjunct2]])
  show ?thesis by (intro conjI h c1 c2 c3 c4)
qed

subsection \<open>End to end\<close>


subsection \<open>Titles\<close>


subsection \<open>Records without a date\<close>

text \<open>
  Claim C7. A block whose date is absent or does not parse adds no row: the rows
  extracted from a document are those of the blocks before it followed by those of the
  blocks after it, whatever the other fields of the block hold, and the extraction
  returns normally. Every row of the canonical table comes from a block whose date
  parsed. In \<^verbatim>\<open>extract_all_events.py\<close>, where the extractor keeps such rows, none of them
  is left after \<^verbatim>\<open>main\<close> has filtered on the date.
\<close>

theorem dateless_dropped:
  "(\<not> truthy (block_date ev) \<longrightarrow>
      extract_events (pre @ ev # post) cal src
        = extract_events pre cal src @ extract_events post cal src) \<and>
   (\<forall>final. rebuild_events_safe month_items day_items = Inr final \<longrightarrow>
      (\<forall>r\<in>set final. \<exists>it\<in>set (month_items @ day_items). \<exists>b\<in>set (event_blocks it).
          block_date b = Some (date r) \<and> date r \<noteq> [])) \<and>
   (\<forall>out. extract_all_events month_items day_items = Inr out \<longrightarrow>
      (\<forall>r\<in>set out. date_all r \<noteq> None))"
  using extract_events_drop [of ev pre post cal src]
    rebuild_rows_origin [of month_items day_items]
    extract_all_dated [of month_items day_items]
  by blast

theorem dateless_dropped_witness:
  "\<not> truthy (block_date undated_block) \<and>
   extract_events ([friday_block] @ undated_block # [june_block]) (Some ''BilalEvents'') ''day_block''
     = extract_events [friday_block] (Some ''BilalEvents'') ''day_block''
       @ extract_events [june_block] (Some ''BilalEvents'') ''day_block'' \<and>
   extract_events [friday_block, undated_block, june_block] (Some ''BilalEvents'') ''day_block''
     = [friday_day_row, june_row] \<and>
   rebuild_events_safe sample_month_items sample_day_items = Inr [friday_plain_row, june_row] \<and>
   (\<exists>it\<in>set (sample_month_items @ sample_day_items). \<exists>b\<in>set (event_blocks it).
      block_date b = Some (date june_row) \<and> date june_row \<noteq> []) \<and>
   map date_all (process_manifest
      [\<lparr>calendar_param = Some ''BilalEvents'', event_blocks = [undated_block, june_block]\<rparr>]
      ''day_block'') = [None, Some ''2021-06-04''] \<and>
   extract_all_events sample_month_items
      [\<lparr>calendar_param = Some ''BilalEvents'', event_blocks = [undated_block, june_block]\<rparr>]
     = Inr [\<lparr>date_all = Some ''2021-05-21'', title_all = ''Friday Prayer'',
             title_norm_all = ''friday prayer'', time_label_all = Some ''1:00 PM'',
             location_code_all = None, calendar_name_all = Some ''BilalEvents'',
             event_id_all = Some ''899'', source_type_all = ''month_block''\<rparr>,
            \<lparr>date_all = Some ''2021-06-04'', title_all = ''Youth Night'',
             title_norm_all = ''youth night'', time_label_all = None,
             location_code_all = Some ''Gym'', calendar_name_all = Some ''BilalEvents'',
             event_id_all = Some ''910'', source_type_all = ''day_block''\<rparr>] \<and>
   None \<notin> date_all ` set [\<lparr>date_all = Some ''2021-05-21'', title_all = ''Friday Prayer'',
             title_norm_all = ''friday prayer'', time_label_all = Some ''1:00 PM'',
             location_code_all = None, calendar_name_all = Some ''BilalEvents'',
             event_id_all = Some ''899'', source_type_all = ''month_block''\<rparr>,
            \<lparr>date_all = Some ''2021-06-04'', title_all = ''Youth Night'',
             title_norm_all = ''youth night'', time_label_all = None,
             location_code_all = Some ''Gym'', calendar_name_all = Some ''BilalEvents'',
             event_id_all = Some ''910'', source_type_all = ''day_block''\<rparr>]"
proof -
  let ?all_day = "[\<lparr>calendar_param = Some ''BilalEvents'', event_blocks = [undated_block, june_block]\<rparr>]"
  let ?out = "[\<lparr>date_all = Some ''2021-05-21'', title_all = ''Friday Prayer'',
             title_norm_all = ''friday prayer'', time_label_all = Some ''1:00 PM'',
             location_code_all = None, calendar_name_all = Some ''BilalEvents'',
             event_id_all = Some ''899'', source_type_all = ''month_block''\<rparr>,
            \<lparr>date_all = Some ''2021-06-04'', title_all = ''Youth Night'',
             title_norm_all = ''youth night'', time_label_all = None,
             location_code_all = Some ''Gym'', calendar_name_all = Some ''BilalEvents'',
             event_id_all = Some ''910'', source_type_all = ''day_block''\<rparr>]"
  have h1: "\<not> truthy (block_date undated_block)" by code_simp
  have h2: "rebuild_events_safe sample_month_items sample_day_items
              = Inr [friday_plain_row, june_row]" by code_simp
  have h3: "extract_all_events sample_month_items ?all_day = Inr ?out" by code_simp
  have h4: "extract_events [friday_block, undated_block, june_block] (Some ''BilalEvents'') ''day_block''
     = [friday_day_row, june_row]" by code_simp
  have h5: "map date_all (process_manifest ?all_day ''day_block'') = [None, Some ''2021-06-04'']"
    by code_simp
  note w = dateless_dropped [of undated_block "[friday_block]" "[june_block]"
      "Some ''BilalEvents''" "''day_block''" sample_month_items sample_day_items]
  note w' = dateless_dropped [of undated_block "[friday_block]" "[june_block]"
      "Some ''BilalEvents''" "''day_block''" sample_month_items ?all_day]
  from w h1 have c1: "extract_events ([friday_block] @ undated_block # [june_block]) (Some ''BilalEvents'') ''day_block''
     = extract_events [friday_block] (Some ''BilalEvents'') ''day_block''
       @ extract_events [june_block] (Some ''BilalEvents'') ''day_block''" by blast
  have mem: "june_row \<in> set [friday_plain_row, june_row]" by simp
  from w h2 have b: "\<forall>r\<in>set [friday_plain_row, june_row].
      \<exists>it\<in>set (sample_month_items @ sample_day_items). \<exists>b\<in>set (event_blocks it).
          block_date b = Some (date r) \<and> date r \<noteq> []" by blast
  have c2: "\<exists>it\<in>set (sample_month_items @ sample_day_items). \<exists>b\<in>set (event_blocks it).
      block_date b = Some (date june_row) \<and> date june_row \<noteq> []"
    by (rule bspec [OF b mem])
  from w' h3 have "\<forall>r\<in>set ?out. date_all r \<noteq> None" by blast
  then have c3: "None \<notin> date_all ` set ?out" by (rule ball_neq_notin_image)
  show ?thesis by (intro conjI h1 c1 h4 h2 c2 h5 h3 c3)
qed

subsection \<open>Partitioning the manifest\<close>

text \<open>
  Claim C8, as amended. An entry is skipped when its path is absent or empty or when no
  file exists at the path; a skipped entry is in no sub-manifest and the script keeps no
  count of it: the four counts it prints add up to the number of entries that were not
  skipped. Every entry that is not skipped is in exactly one of the four sub-manifests,
  each of which lists, in manifest order, the entries routed to it. An entry goes to
  \<open>month_block\<close> exactly when its file classifies as a month block and the \<^verbatim>\<open>Op\<close>
  parameter of its URL is \<^verbatim>\<open>ShowIt\<close> or \<^verbatim>\<open>ShowMonth\<close>; an entry in \<open>day_block\<close> has
  \<^verbatim>\<open>Op=ShowDay\<close> and a \<^verbatim>\<open>CalEvent\<close> marker in its file. A file that exists and is empty is
  not skipped: it goes to \<open>other\<close>.
\<close>

theorem partition_routing:
  "(\<forall>b. bucket_of (written (make_verified_manifests get_qs fs data)) b
          = filter (\<lambda>it. route get_qs fs it = Some b) data) \<and>
   (\<forall>it. skipped fs it \<longrightarrow>
      (\<forall>b. it \<notin> set (bucket_of (written (make_verified_manifests get_qs fs data)) b))) \<and>
   (\<forall>it\<in>set data. \<not> skipped fs it \<longrightarrow>
      (\<exists>!b. it \<in> set (bucket_of (written (make_verified_manifests get_qs fs data)) b))) \<and>
   sum_list (map snd (printed (make_verified_manifests get_qs fs data)))
      = length (filter (\<lambda>it. \<not> skipped fs it) data) \<and>
   (\<forall>it. route get_qs fs it = Some Month_block \<longleftrightarrow>
      (\<exists>p html. path it = Some p \<and> p \<noteq> [] \<and> fs p = Some html \<and>
         classify_html html = T_month_block \<and>
         (url_op get_qs it = ''ShowIt'' \<or> url_op get_qs it = ''ShowMonth''))) \<and>
   (\<forall>it. route get_qs fs it = Some Day_block \<longrightarrow>
      (\<exists>p html. path it = Some p \<and> fs p = Some html \<and> url_op get_qs it = ''ShowDay'' \<and>
         has_CalEvent False html)) \<and>
   (\<forall>it p. path it = Some p \<and> p \<noteq> [] \<and> fs p = Some [] \<longrightarrow> route get_qs fs it = Some Other)"
proof -
  let ?w = "written (make_verified_manifests get_qs fs data)"
  have 1: "\<forall>b. bucket_of ?w b = filter (\<lambda>it. route get_qs fs it = Some b) data"
    by (simp add: written_bucket)
  have 2: "\<forall>it. skipped fs it \<longrightarrow> (\<forall>b. it \<notin> set (bucket_of ?w b))"
    using route_None [of get_qs fs] by (simp add: written_bucket)
  have 3: "\<forall>it\<in>set data. \<not> skipped fs it \<longrightarrow> (\<exists>!b. it \<in> set (bucket_of ?w b))"
  proof (intro ballI impI)
    fix it assume "it \<in> set data" "\<not> skipped fs it"
    then obtain b where "route get_qs fs it = Some b" using route_None [of get_qs fs it] by auto
    with \<open>it \<in> set data\<close> show "\<exists>!b. it \<in> set (bucket_of ?w b)"
      by (auto simp: written_bucket)
  qed
  have 4: "sum_list (map snd (printed (make_verified_manifests get_qs fs data)))
      = length (filter (\<lambda>it. \<not> skipped fs it) data)"
    using count_by_route [of get_qs fs data] by (simp add: printed_counts written_bucket)
  show ?thesis
    using 1 2 3 4 route_Month [of get_qs fs] route_Day [of get_qs fs]
      route_empty_file [of _ _ fs get_qs]
    by (intro conjI) blast+
qed

theorem partition_routing_witness:
  "written (make_verified_manifests sample_get_qs sample_fs
      [e_month, e_day, e_missing, e_nopath, e_empty])
     = \<lparr>month_block = [e_month], event_popup = [], day_block = [e_day], other = [e_empty]\<rparr> \<and>
   printed (make_verified_manifests sample_get_qs sample_fs
      [e_month, e_day, e_missing, e_nopath, e_empty])
     = [(''month_block:'', 1), (''event_popup:'', 0), (''day_block:'', 1), (''other:'', 1)] \<and>
   skipped sample_fs e_missing \<and> skipped sample_fs e_nopath \<and> \<not> skipped sample_fs e_month \<and>
   e_month \<in> set [e_month, e_day, e_missing, e_nopath, e_empty] \<and>
   (\<forall>b. e_missing \<notin> set (bucket_of (written (make_verified_manifests sample_get_qs sample_fs
      [e_month, e_day, e_missing, e_nopath, e_empty])) b)) \<and>
   (\<exists>!b. e_month \<in> set (bucket_of (written (make_verified_manifests sample_get_qs sample_fs
      [e_month, e_day, e_missing, e_nopath, e_empty])) b)) \<and>
   route sample_get_qs sample_fs e_month = Some Month_block \<and>
   route sample_get_qs sample_fs e_day = Some Day_block \<and>
   path e_empty = Some ''z.html'' \<and> sample_fs ''z.html'' = Some [] \<and>
   route sample_get_qs sample_fs e_empty = Some Other \<and>
   (\<exists>p html. path e_day = Some p \<and> sample_fs p = Some html \<and>
      url_op sample_get_qs e_day = ''ShowDay'' \<and> has_CalEvent False html)"
proof -
  let ?data = "[e_month, e_day, e_missing, e_nopath, e_empty]"
  have h1: "written (make_verified_manifests sample_get_qs sample_fs ?data)
     = \<lparr>month_block = [e_month], event_popup = [], day_block = [e_day], other = [e_empty]\<rparr>"
    by code_simp
  have h2: "printed (make_verified_manifests sample_get_qs sample_fs ?data)
     = [(''month_block:'', 1), (''event_popup:'', 0), (''day_block:'', 1), (''other:'', 1)]"
    by code_simp
  have h3: "skipped sample_fs e_missing" by code_simp
  have h4: "skipped sample_fs e_nopath" by code_simp
  have h5: "\<not> skipped sample_fs e_month" by code_simp
  have h6: "e_month \<in> set ?data" by simp
  have h7: "route sample_get_qs sample_fs e_month = Some Month_block" by code_simp
  have h8: "route sample_get_qs sample_fs e_day = Some Day_block" by code_simp
  have h9: "path e_empty = Some ''z.html''" by code_simp
  have h10: "sample_fs ''z.html'' = Some []" by code_simp
  note w = partition_routing [of sample_get_qs sample_fs ?data]
  from w h3 have c1: "\<forall>b. e_missing \<notin> set (bucket_of (written
      (make_verified_manifests sample_get_qs sample_fs ?data)) b)" by blast
  from w h5 h6 have c2: "\<exists>!b. e_month \<in> set (bucket_of (written
      (make_verified_manifests sample_get_qs sample_fs ?data)) b)" by blast
  from w h9 h10 have c3: "route sample_get_qs sample_fs e_empty = Some Other" by blast
  from w h8 have c4: "\<exists>p html. path e_day = Some p \<and> sample_fs p = Some html \<and>
      url_op sample_get_qs e_day = ''ShowDay'' \<and> has_CalEvent False html" by blast
  show ?thesis by (intro conjI h1 h2 h3 h4 h5 h6 c1 c2 h7 h8 h9 h10 c3 c4)
qed

text \<open>
  The claim as stated fails on two points. A manifest whose only entry points to a file
  that does not exist leaves exactly what the empty manifest leaves, in the files written
  and in the counts printed, so nothing counts the skipped entry. And an entry whose
  file exists and is empty is not skipped: it is written to \<open>other\<close>.
\<close>

theorem skipped_entry_leaves_no_count:
  "skipped sample_fs e_missing \<and>
   make_verified_manifests sample_get_qs sample_fs [e_missing]
     = make_verified_manifests sample_get_qs sample_fs [] \<and>
   printed (make_verified_manifests sample_get_qs sample_fs [e_missing])
     = [(''month_block:'', 0), (''event_popup:'', 0), (''day_block:'', 0), (''other:'', 0)] \<and>
   sample_fs ''z.html'' = Some [] \<and>
   other (written (make_verified_manifests sample_get_qs sample_fs [e_empty])) = [e_empty]"
  by code_simp

subsection \<open>Yearly growth\<close>




subsection \<open>Impossible dates\<close>

text \<open>
  Claim C10. When the text has at least three parts between slashes and the first three
  parse as integers, \<open>parse_date_str\<close> returns them zero-padded to four, two and two
  digits and joined by hyphens, with no check of the calendar: \<^verbatim>\<open>2021/13/45\<close> gives
  \<^verbatim>\<open>2021-13-45\<close>. A block carrying that date is extracted, its row is in the canonical
  table with that date, and the analytics stage builds its event key from it.
\<close>

theorem impossible_date_accepted:
  "(\<forall>d y m dd. 3 \<le> length (split_on CHR ''/'' d) \<and>
       py_int (split_on CHR ''/'' d ! 0) = Some y \<and>
       py_int (split_on CHR ''/'' d ! 1) = Some m \<and>
       py_int (split_on CHR ''/'' d ! 2) = Some dd \<longrightarrow>
       parse_date_str d = Some (format_0d 4 y @ ''-'' @ format_0d 2 m @ ''-'' @ format_0d 2 dd)) \<and>
   parse_date_str ''2021/13/45'' = Some ''2021-13-45'' \<and>
   map date (reconcile (extract_events [impossible_block] (Some ''BilalEvents'') ''month_block'') [])
     = [''2021-13-45''] \<and>
   map event_key (events_unique (to_csv_read_csv
      (reconcile (extract_events [impossible_block] (Some ''BilalEvents'') ''month_block'') [])))
     = [''2021-13-45||friday prayer||1:00 pm'']"
proof -
  have 1: "\<forall>d y m dd. 3 \<le> length (split_on CHR ''/'' d) \<and>
       py_int (split_on CHR ''/'' d ! 0) = Some y \<and>
       py_int (split_on CHR ''/'' d ! 1) = Some m \<and>
       py_int (split_on CHR ''/'' d ! 2) = Some dd \<longrightarrow>
       parse_date_str d = Some (format_0d 4 y @ ''-'' @ format_0d 2 m @ ''-'' @ format_0d 2 dd)"
    using parse_date_str_general by blast
  have 2: "parse_date_str ''2021/13/45'' = Some ''2021-13-45''" by code_simp
  have 3: "map date (reconcile (extract_events [impossible_block] (Some ''BilalEvents'') ''month_block'') [])
     = [''2021-13-45'']" by code_simp
  have 4: "map event_key (events_unique (to_csv_read_csv
      (reconcile (extract_events [impossible_block] (Some ''BilalEvents'') ''month_block'') [])))
     = [''2021-13-45||friday prayer||1:00 pm'']" by code_simp
  show ?thesis by (intro conjI 1 2 3 4)
qed

theorem impossible_date_accepted_witness:
  "3 \<le> length (split_on CHR ''/'' ''2021/13/45'') \<and>
   py_int (split_on CHR ''/'' ''2021/13/45'' ! 0) = Some 2021 \<and>
   py_int (split_on CHR ''/'' ''2021/13/45'' ! 1) = Some 13 \<and>
   py_int (split_on CHR ''/'' ''2021/13/45'' ! 2) = Some 45 \<and>
   parse_date_str ''2021/13/45''
     = Some (format_0d 4 2021 @ ''-'' @ format_0d 2 13 @ ''-'' @ format_0d 2 45) \<and>
   format_0d 4 2021 @ ''-'' @ format_0d 2 13 @ ''-'' @ format_0d 2 45 = ''2021-13-45''"
proof -
  have h1: "3 \<le> length (split_on CHR ''/'' ''2021/13/45'')" by code_simp
  have h2: "py_int (split_on CHR ''/'' ''2021/13/45'' ! 0) = Some 2021" by code_simp
  have h3: "py_int (split_on CHR ''/'' ''2021/13/45'' ! 1) = Some 13" by code_simp
  have h4: "py_int (split_on CHR ''/'' ''2021/13/45'' ! 2) = Some 45" by code_simp
  have h5: "format_0d 4 2021 @ ''-'' @ format_0d 2 13 @ ''-'' @ format_0d 2 45 = ''2021-13-45''"
    by code_simp
  from impossible_date_accepted h1 h2 h3 h4
  have c: "parse_date_str ''2021/13/45''
     = Some (format_0d 4 2021 @ ''-'' @ format_0d 2 13 @ ''-'' @ format_0d 2 45)" by blast
  show ?thesis by (intro conjI h1 h2 h3 h4 c h5)
qed

end
